theory Spec2Isabelle
  imports Main "HOL-Library.Word" "HOL-Library.Char_ord" "HOL-Library.List_Lexorder"
    "HOL-Library.Multiset"
begin

unbundle bit_operations_syntax

section \<open>Block infos and the pack index builder (block/builder.go)\<close>

type_synonym byte = "8 word"

text \<open>
  Modelled from the spec: the declaration of the struct \<open>Info\<close> is not among the sources.
  The fields are the ones \<open>builder.go\<close> reads, with the types its conversions need:
  \<open>PackOffset\<close> and \<open>Length\<close> are handed to \<open>PutUint32\<close> unconverted (uint32),
  the timestamp is a signed 64-bit count of whole seconds (compared as a signed number,
  reinterpreted by \<open>uint64(...)\<close>), the format version is one byte, the payload a byte slice.
  A Go string is a sequence of bytes, as \<open>string\<close> is here.
\<close>

record Info =
  BlockID :: string
  Length :: "32 word"
  TimestampSeconds :: "64 word"
  PackFile :: string
  PackOffset :: "32 word"
  Deleted :: bool
  Payload :: "byte list"
  FormatVersion :: byte

text \<open>\<open>type packIndexBuilder map[string]*Info\<close>: a finite map from content ID to info.\<close>

type_synonym packIndexBuilder = "string \<rightharpoonup> Info"

text \<open>
  \<open>Add\<close>: the entry under \<open>i.BlockID\<close> is overwritten when the key is new or when
  \<open>i.TimestampSeconds >= old.TimestampSeconds\<close> (a signed comparison).
\<close>

definition Add :: "Info \<Rightarrow> packIndexBuilder \<Rightarrow> packIndexBuilder" where
  "Add i b =
     (case b (BlockID i) of
        None \<Rightarrow> b(BlockID i \<mapsto> i)
      | Some old \<Rightarrow>
          if TimestampSeconds old \<le>s TimestampSeconds i then b(BlockID i \<mapsto> i) else b)"

text \<open>
  \<open>sortedBlocks\<close>: the values of the map are collected (Go ranges over a map in an
  unspecified order; the keys are enumerated in ascending order here) and sorted by
  \<open>BlockID\<close>. Whenever the values carry pairwise distinct block IDs the sorted slice
  does not depend on the enumeration order (lemma \<open>sortedBlocks_enumeration\<close> below).
\<close>

definition sortedBlocks :: "packIndexBuilder \<Rightarrow> Info list" where
  "sortedBlocks b = sort_key BlockID (map (\<lambda>k. the (b k)) (sorted_list_of_set (dom b)))"

text \<open>
  \<open>indexLayout\<close>. Go's \<open>int\<close> is modelled by \<open>int\<close>: the lengths stored are below
  \<open>2^63\<close>, and every use of the three int fields converts them to a narrower unsigned
  type, which is reduction modulo a power of two.
\<close>

record indexLayout =
  packFileOffsets :: "string \<rightharpoonup> 32 word"
  entryCount :: int
  keyLength :: int
  entryLength :: int
  extraDataOffset :: "32 word"

text \<open>
  \<open>Build\<close> can end in three ways: a panic (which unwinds the caller), an error value
  returned to the caller, or a normal return.
\<close>

datatype build_error =
    InconsistentKeyLength int int  \<comment> \<open>"inconsistent key length: %v vs %v"\<close>
  | EmptyPackBlockID string  \<comment> \<open>"empty pack block ID for %v"\<close>

datatype 'a outcome = Panic string | Failed build_error | Done 'a

text \<open>\<open>encoding/binary\<close>, \<open>BigEndian.PutUint16/32/64\<close>: most significant byte first.\<close>

definition PutUint16 :: "16 word \<Rightarrow> byte list" where
  "PutUint16 v = [ucast (drop_bit 8 v), ucast v]"

definition PutUint32 :: "32 word \<Rightarrow> byte list" where
  "PutUint32 v = [ucast (drop_bit 24 v), ucast (drop_bit 16 v), ucast (drop_bit 8 v), ucast v]"

definition PutUint64 :: "64 word \<Rightarrow> byte list" where
  "PutUint64 v =
     [ucast (drop_bit 56 v), ucast (drop_bit 48 v), ucast (drop_bit 40 v), ucast (drop_bit 32 v),
      ucast (drop_bit 24 v), ucast (drop_bit 16 v), ucast (drop_bit 8 v), ucast v]"

text \<open>\<open>[]byte(s)\<close> for a string \<open>s\<close>.\<close>

definition bytes_of :: "string \<Rightarrow> byte list" where
  "bytes_of s = map of_char s"

text \<open>
  \<open>prepareExtraData\<close>. The function \<open>contentIDToBytes\<close> is not among the sources; it is
  the parameter \<open>cid\<close> of every definition that calls it. The loop body, for the element
  at index \<open>i\<close>: set the key length from the first element, append a pack-file ID not
  seen before to the extra data and record its offset, then panic on an inline payload.
\<close>

fun prepareExtraData_loop ::
  "(string \<Rightarrow> byte list) \<Rightarrow> nat \<Rightarrow> Info list \<Rightarrow> indexLayout \<Rightarrow> byte list \<Rightarrow>
     (indexLayout \<times> byte list) outcome" where
  "prepareExtraData_loop cid i [] layout extraData = Done (layout, extraData)"
| "prepareExtraData_loop cid i (it # rest) layout extraData =
     (let layout1 = (if i = 0 then layout\<lparr>keyLength := int (length (cid (BlockID it)))\<rparr>
                     else layout);
          seen = (PackFile it = [] \<or> packFileOffsets layout1 (PackFile it) \<noteq> None);
          layout2 = (if seen then layout1
                     else layout1\<lparr>packFileOffsets :=
                            (packFileOffsets layout1)(PackFile it \<mapsto> of_nat (length extraData))\<rparr>);
          extraData2 = (if seen then extraData else extraData @ bytes_of (PackFile it))
      in if length (Payload it) > 0
         then Panic ''storing payloads in indexes is not supported''
         else prepareExtraData_loop cid (Suc i) rest layout2 extraData2)"

definition prepareExtraData ::
  "(string \<Rightarrow> byte list) \<Rightarrow> Info list \<Rightarrow> indexLayout \<Rightarrow> (indexLayout \<times> byte list) outcome" where
  "prepareExtraData cid allBlocks layout =
     (case prepareExtraData_loop cid 0 allBlocks layout [] of
        Panic m \<Rightarrow> Panic m
      | Failed e \<Rightarrow> Failed e
      | Done (layout', extraData) \<Rightarrow>
          Done (layout'\<lparr>extraDataOffset :=
                  word_of_int (8 + entryCount layout' * (keyLength layout' + entryLength layout'))\<rparr>,
                extraData))"

text \<open>
  \<open>formatEntry\<close> fills the first 20 bytes of the buffer \<open>entry\<close>, which \<open>Build\<close>
  allocates with exactly that length; nothing is written when the pack-file ID is empty.
  A key missing from a Go map reads as the zero value.
\<close>

definition formatEntry :: "byte list \<Rightarrow> Info \<Rightarrow> indexLayout \<Rightarrow> byte list outcome" where
  "formatEntry entry it layout =
     (if length (PackFile it) = 0 then Failed (EmptyPackBlockID (BlockID it))
      else
        let timestampAndFlags =
              push_bit 16 (TimestampSeconds it) OR push_bit 8 (ucast (FormatVersion it))
                OR of_nat (length (PackFile it));
            packFileOffset = extraDataOffset layout +
              (case packFileOffsets layout (PackFile it) of None \<Rightarrow> 0 | Some off \<Rightarrow> off);
            packedOffset = (if Deleted it then PackOffset it OR 0x80000000 else PackOffset it)
        in Done (PutUint64 timestampAndFlags @ PutUint32 packFileOffset @ PutUint32 packedOffset
                 @ PutUint32 (Length it) @ drop 20 entry))"

text \<open>
  The writer. \<open>Build\<close> wraps its \<open>io.Writer\<close> in a \<open>bufio.Writer\<close> and flushes it at the
  end; the output is modelled as the sequence of bytes handed to an in-memory writer, whose
  \<open>Write\<close> does not fail. \<open>writeEntry\<close> returns the extended output and the entry buffer.
\<close>

definition writeEntry ::
  "(string \<Rightarrow> byte list) \<Rightarrow> byte list \<Rightarrow> Info \<Rightarrow> indexLayout \<Rightarrow> byte list \<Rightarrow>
     (byte list \<times> byte list) outcome" where
  "writeEntry cid w it layout entry =
     (let k = cid (BlockID it) in
      if int (length k) \<noteq> keyLength layout
      then Failed (InconsistentKeyLength (int (length k)) (keyLength layout))
      else (case formatEntry entry it layout of
              Panic m \<Rightarrow> Panic m
            | Failed e \<Rightarrow> Failed e
            | Done entry' \<Rightarrow> Done (w @ k @ entry', entry')))"

fun writeEntries ::
  "(string \<Rightarrow> byte list) \<Rightarrow> byte list \<Rightarrow> Info list \<Rightarrow> indexLayout \<Rightarrow> byte list \<Rightarrow>
     (byte list \<times> byte list) outcome" where
  "writeEntries cid w [] layout entry = Done (w, entry)"
| "writeEntries cid w (it # rest) layout entry =
     (case writeEntry cid w it layout entry of
        Panic m \<Rightarrow> Panic m
      | Failed e \<Rightarrow> Failed e
      | Done (w', entry') \<Rightarrow> writeEntries cid w' rest layout entry')"

definition Build :: "(string \<Rightarrow> byte list) \<Rightarrow> packIndexBuilder \<Rightarrow> byte list outcome" where
  "Build cid b =
     (let allBlocks = sortedBlocks b;
          layout0 = \<lparr>packFileOffsets = Map.empty, entryCount = int (length allBlocks),
                     keyLength = - 1, entryLength = 20, extraDataOffset = 0\<rparr>
      in case prepareExtraData cid allBlocks layout0 of
           Panic m \<Rightarrow> Panic m
         | Failed e \<Rightarrow> Failed e
         | Done (layout, extraData) \<Rightarrow>
             let header = [1, word_of_int (keyLength layout)]
                   @ PutUint16 (word_of_int (entryLength layout))
                   @ PutUint32 (word_of_int (entryCount layout));
                 entry = replicate (nat (entryLength layout)) 0
             in (case writeEntries cid header allBlocks layout entry of
                   Panic m \<Rightarrow> Panic m
                 | Failed e \<Rightarrow> Failed e
                 | Done (w, entry') \<Rightarrow> Done (w @ extraData)))"

text \<open>How a call of \<open>Build\<close> ended, as its caller sees it.\<close>

definition crashes :: "'a outcome \<Rightarrow> bool" where
  "crashes r = (case r of Panic m \<Rightarrow> True | _ \<Rightarrow> False)"

definition returns_error :: "'a outcome \<Rightarrow> bool" where
  "returns_error r = (case r of Failed e \<Rightarrow> True | _ \<Rightarrow> False)"

text \<open>Concrete infos used to evaluate the definitions.\<close>

definition payload_info :: Info where
  "payload_info = \<lparr>BlockID = ''ab'', Length = 1, TimestampSeconds = 7, PackFile = ''p1'',
     PackOffset = 0, Deleted = False, Payload = [1], FormatVersion = 1\<rparr>"

definition live_info :: Info where
  "live_info = \<lparr>BlockID = ''ab'', Length = 5, TimestampSeconds = 7, PackFile = ''p1'',
     PackOffset = 3, Deleted = False, Payload = [], FormatVersion = 1\<rparr>"

definition tombstone_info :: Info where
  "tombstone_info = \<lparr>BlockID = ''ab'', Length = 0, TimestampSeconds = 7, PackFile = ''p2'',
     PackOffset = 0, Deleted = True, Payload = [], FormatVersion = 1\<rparr>"


section \<open>Reading an index blob\<close>

text \<open>
  The readers used to state what \<open>Build\<close> wrote. \<open>slice b lo hi\<close> is Go's \<open>b[lo:hi]\<close>;
  \<open>be_word\<close> is the big-endian value of a byte sequence (\<open>BigEndian.Uint16/32/64\<close>,
  according to the length of the sequence and the width of the result).
\<close>

definition slice :: "'a list \<Rightarrow> nat \<Rightarrow> nat \<Rightarrow> 'a list" where
  "slice xs lo hi = take (hi - lo) (drop lo xs)"

definition be_word :: "byte list \<Rightarrow> 'a::len word" where
  "be_word bs = foldl (\<lambda>acc b. push_bit 8 acc OR ucast b) 0 bs"

text \<open>
  The specification's words for the extra-data section: the pack-file IDs ``deduplicated
  and concatenated in first-seen order''. \<open>first_seen\<close> keeps the first occurrence of every
  element; \<open>offset_in pfs pf\<close> is the number of bytes that precede \<open>pf\<close> in the
  concatenation of \<open>pfs\<close>.
\<close>

fun first_seen :: "'a list \<Rightarrow> 'a list" where
  "first_seen [] = []"
| "first_seen (x # xs) = x # first_seen (filter (\<lambda>y. y \<noteq> x) xs)"

definition offset_in :: "string list \<Rightarrow> string \<Rightarrow> nat" where
  "offset_in pfs pf = length (concat (map bytes_of (takeWhile (\<lambda>q. q \<noteq> pf) pfs)))"

text \<open>
  Every builder that \<open>Add\<close> produces from the empty one files an info under its own
  content ID.
\<close>

definition builder_inv :: "packIndexBuilder \<Rightarrow> bool" where
  "builder_inv b = (finite (dom b) \<and> (\<forall>k \<in> dom b. BlockID (the (b k)) = k))"

text \<open>
  The four fields \<open>formatEntry\<close> writes, and the places where the specification puts
  them: entry \<open>j\<close> of a blob with keys of \<open>kl\<close> bytes starts at \<open>8 + j * (kl + 20)\<close>,
  its 20-byte body follows the key, and the body holds \<open>timestampAndFlags\<close> (bytes 0..8),
  \<open>packFileOffset\<close> (8..12), \<open>packedOffset\<close> (12..16) and \<open>packedLength\<close> (16..20).
\<close>

definition entry_body :: "Info \<Rightarrow> indexLayout \<Rightarrow> byte list" where
  "entry_body it layout =
     PutUint64 (push_bit 16 (TimestampSeconds it) OR push_bit 8 (ucast (FormatVersion it))
                  OR of_nat (length (PackFile it)))
     @ PutUint32 (extraDataOffset layout +
          (case packFileOffsets layout (PackFile it) of None \<Rightarrow> 0 | Some off \<Rightarrow> off))
     @ PutUint32 (if Deleted it then PackOffset it OR 0x80000000 else PackOffset it)
     @ PutUint32 (Length it)"

definition key_at :: "byte list \<Rightarrow> nat \<Rightarrow> nat \<Rightarrow> byte list" where
  "key_at blob kl j = slice blob (8 + j * (kl + 20)) (8 + j * (kl + 20) + kl)"

definition body_at :: "byte list \<Rightarrow> nat \<Rightarrow> nat \<Rightarrow> byte list" where
  "body_at blob kl j = slice blob (8 + j * (kl + 20) + kl) (8 + j * (kl + 20) + kl + 20)"

definition timestampAndFlags_at :: "byte list \<Rightarrow> nat \<Rightarrow> nat \<Rightarrow> 64 word" where
  "timestampAndFlags_at blob kl j = be_word (slice (body_at blob kl j) 0 8)"

definition packFileOffset_at :: "byte list \<Rightarrow> nat \<Rightarrow> nat \<Rightarrow> 32 word" where
  "packFileOffset_at blob kl j = be_word (slice (body_at blob kl j) 8 12)"

definition packedOffset_at :: "byte list \<Rightarrow> nat \<Rightarrow> nat \<Rightarrow> 32 word" where
  "packedOffset_at blob kl j = be_word (slice (body_at blob kl j) 12 16)"

definition packedLength_at :: "byte list \<Rightarrow> nat \<Rightarrow> nat \<Rightarrow> 32 word" where
  "packedLength_at blob kl j = be_word (slice (body_at blob kl j) 16 20)"

text \<open>The key length of a non-empty index: the length of the first key.\<close>

definition key_len :: "(string \<Rightarrow> byte list) \<Rightarrow> packIndexBuilder \<Rightarrow> nat" where
  "key_len cid b = (case sortedBlocks b of [] \<Rightarrow> 0 | it # _ \<Rightarrow> length (cid (BlockID it)))"











section \<open>The disk cache of index blobs (block/committed\_block\_index\_disk\_cache.go)\<close>

text \<open>
  The cache acts on the file system through calls of the \<open>os\<close> and \<open>ioutil\<close> packages.
  What such a call answers is decided by the operating system and by the other processes
  that share the cache directory, not by this code. A function of the cache is therefore
  modelled by the calls it makes and by how it continues on each answer: it either returns
  a value or makes a call and continues with the answer.

  An answer is a success (carrying the name of the created file for \<open>TempFile\<close>), an
  error for which \<open>os.IsNotExist\<close> holds, or any other error; both errors carry a message.
\<close>

datatype syscall =
    Stat string  \<comment> \<open>\<open>os.Stat(path)\<close>\<close>
  | TempFile string string  \<comment> \<open>\<open>ioutil.TempFile(dir, pattern)\<close>\<close>
  | MkdirAll string  \<comment> \<open>\<open>os.MkdirAll(dir, 0700)\<close>\<close>
  | Write string "byte list"  \<comment> \<open>\<open>tf.Write(data)\<close>, the open file given by its name\<close>
  | Close string  \<comment> \<open>\<open>tf.Close()\<close>\<close>
  | Rename string string  \<comment> \<open>\<open>os.Rename(oldpath, newpath)\<close>\<close>

datatype answer = Success string | NotExist string | Failure string

datatype 'a prog = Return 'a | Call syscall "answer \<Rightarrow> 'a prog"

text \<open>The error values a cache function returns.\<close>

datatype cache_error =
    OsError string  \<comment> \<open>the error of a system call, returned as it is\<close>
  | CantCreateTmpFile string  \<comment> \<open>"can't create tmp file: %v"\<close>
  | CantWriteTempFile string  \<comment> \<open>"can't write to temp file: %v"\<close>
  | CantCloseTmpFile  \<comment> \<open>"can't close tmp file"\<close>
  | UnsuccessfulIndexWrite string  \<comment> \<open>"unsuccessful index write of block %q"\<close>

definition message :: "answer \<Rightarrow> string" where
  "message a = (case a of Success s \<Rightarrow> s | NotExist e \<Rightarrow> e | Failure e \<Rightarrow> e)"

text \<open>Sequencing: run \<open>p\<close>, then continue with its result.\<close>

primrec bind_prog :: "'a prog \<Rightarrow> ('a \<Rightarrow> 'b prog) \<Rightarrow> 'b prog" where
  "bind_prog (Return a) f = f a"
| "bind_prog (Call c k) f = Call c (\<lambda>r. bind_prog (k r) f)"

text \<open>
  \<open>exec p answers\<close> runs \<open>p\<close> against the answers the system gives, in order: the
  calls made, and the value returned (\<open>None\<close> when the answers run out before \<open>p\<close>
  returns).
\<close>

primrec exec :: "'a prog \<Rightarrow> answer list \<Rightarrow> syscall list \<times> 'a option" where
  "exec (Return a) = (\<lambda>answers. ([], Some a))"
| "exec (Call c k) = (\<lambda>answers.
     case answers of
       [] \<Rightarrow> ([c], None)
     | r # rest \<Rightarrow> (case exec (k r) rest of (calls, res) \<Rightarrow> (c # calls, res)))"

text \<open>
  \<open>simpleIndexSuffix\<close> and \<open>indexBlockPath\<close>; the cache is its directory name, and
  \<open>filepath.Join\<close> of a directory and a file name puts the separator between them.
\<close>

definition simpleIndexSuffix :: string where
  "simpleIndexSuffix = ''.sndx''"

definition indexBlockPath :: "string \<Rightarrow> string \<Rightarrow> string" where
  "indexBlockPath dirname indexBlockID = dirname @ ''/'' @ indexBlockID @ simpleIndexSuffix"

text \<open>\<open>hasIndexBlockID\<close> returns \<open>(bool, error)\<close>.\<close>

definition hasIndexBlockID :: "string \<Rightarrow> string \<Rightarrow> (bool \<times> cache_error option) prog" where
  "hasIndexBlockID dirname indexBlockID =
     Call (Stat (indexBlockPath dirname indexBlockID)) (\<lambda>r.
       case r of
         Success _ \<Rightarrow> Return (True, None)
       | NotExist _ \<Rightarrow> Return (False, None)
       | Failure e \<Rightarrow> Return (False, Some (OsError e)))"

text \<open>
  \<open>writeTempFileAtomic\<close> returns \<open>(string, error)\<close>. The result of \<open>os.MkdirAll\<close> is
  ignored by the code. After a failed \<open>Write\<close> the function returns without closing.
\<close>

definition write_and_close :: "string \<Rightarrow> byte list \<Rightarrow> (string \<times> cache_error option) prog" where
  "write_and_close name data =
     Call (Write name data) (\<lambda>r.
       case r of
         Success _ \<Rightarrow>
           Call (Close name) (\<lambda>r'.
             case r' of
               Success _ \<Rightarrow> Return (name, None)
             | _ \<Rightarrow> Return ([], Some CantCloseTmpFile))
       | _ \<Rightarrow> Return ([], Some (CantWriteTempFile (message r))))"

definition writeTempFileAtomic :: "string \<Rightarrow> byte list \<Rightarrow> (string \<times> cache_error option) prog" where
  "writeTempFileAtomic dirname data =
     Call (TempFile dirname ''tmp'') (\<lambda>r.
       case r of
         Success name \<Rightarrow> write_and_close name data
       | NotExist _ \<Rightarrow>
           Call (MkdirAll dirname) (\<lambda>_.
             Call (TempFile dirname ''tmp'') (\<lambda>r'.
               case r' of
                 Success name \<Rightarrow> write_and_close name data
               | _ \<Rightarrow> Return ([], Some (CantCreateTmpFile (message r')))))
       | Failure e \<Rightarrow> Return ([], Some (CantCreateTmpFile e)))"

text \<open>\<open>addBlockToCache\<close> returns \<open>error\<close>: \<open>None\<close> is \<open>nil\<close>.\<close>

definition addBlockToCache :: "string \<Rightarrow> string \<Rightarrow> byte list \<Rightarrow> cache_error option prog" where
  "addBlockToCache dirname indexBlockID data =
     bind_prog (hasIndexBlockID dirname indexBlockID) (\<lambda>(exists, err).
       if err \<noteq> None then Return err
       else if exists then Return None
       else bind_prog (writeTempFileAtomic dirname data) (\<lambda>(tmpFile, err).
         if err \<noteq> None then Return err
         else Call (Rename tmpFile (indexBlockPath dirname indexBlockID)) (\<lambda>r.
           case r of
             Success _ \<Rightarrow> Return None
           | _ \<Rightarrow>
               bind_prog (hasIndexBlockID dirname indexBlockID) (\<lambda>(exists, err).
                 if err \<noteq> None then Return err
                 else if \<not> exists
                   then Return (Some (UnsuccessfulIndexWrite indexBlockID))
                   else Return None))))"

section \<open>The logging wrapper around a blob store (package logging)\<close>

text \<open>
  Modelled from the spec: the interface \<open>storage.Storage\<close> and the struct
  \<open>storage.BlockMetadata\<close> are not among the sources; the six operations and the metadata
  \<open>{id, length, timestamp}\<close> are those of the specification's blob-store contract, with
  the parameter lists the wrapper forwards.

  A store acts on a world \<open>'w\<close> (the blobs it holds, and everything else its calls may
  touch, the clock included). An operation takes the world and returns its results and the
  new world. The context argument is of an arbitrary type \<open>'c\<close>.
\<close>

record BlockMetadata =
  MetaBlockID :: string
  MetaLength :: int
  MetaTimestamp :: int

type_synonym error = string

text \<open>
  \<open>ListBlocks\<close> calls a function of its caller. From a world, a listing either finishes
  with its error result, or hands one metadata record to the callback and goes on from the
  callback's return value and from the world the callback left. The callback belongs to
  the caller: besides the world it acts on the caller's own state \<open>'u\<close>, which a store
  never sees.
\<close>

datatype 'w listing =
    Finish "error option" 'w
  | Yield BlockMetadata 'w "error option \<Rightarrow> 'w \<Rightarrow> 'w listing"

type_synonym ('w, 'u) callback = "BlockMetadata \<Rightarrow> 'w \<times> 'u \<Rightarrow> error option \<times> 'w \<times> 'u"

primrec run_listing ::
  "'w listing \<Rightarrow> ('w, 'u) callback \<Rightarrow> 'u \<Rightarrow> error option \<times> 'w \<times> 'u" where
  "run_listing (Finish err w) = (\<lambda>cb u. (err, w, u))"
| "run_listing (Yield bi w k) = (\<lambda>cb u.
     case cb bi (w, u) of (r, w', u') \<Rightarrow> run_listing (k r w') cb u')"

record ('w, 'c) Storage =
  GetBlock :: "'c \<Rightarrow> string \<Rightarrow> int \<Rightarrow> int \<Rightarrow> 'w \<Rightarrow> (byte list \<times> error option) \<times> 'w"
  PutBlock :: "'c \<Rightarrow> string \<Rightarrow> byte list \<Rightarrow> 'w \<Rightarrow> error option \<times> 'w"
  DeleteBlock :: "'c \<Rightarrow> string \<Rightarrow> 'w \<Rightarrow> error option \<times> 'w"
  ListBlocks :: "'c \<Rightarrow> string \<Rightarrow> 'w \<Rightarrow> 'w listing"
  CloseStorage :: "'c \<Rightarrow> 'w \<Rightarrow> error option \<times> 'w"
  ConnectionInfo :: "'w \<Rightarrow> string"

text \<open>
  The arguments of a \<open>printf\<close> call, and the sink: a function of the format and the
  arguments on the state \<open>'u\<close> of the caller who supplied it. Time is read from the world
  (\<open>time.Now()\<close>); a duration is the difference of two readings.
\<close>

datatype printf_arg =
    ArgString string
  | ArgInt int
  | ArgBytes "byte list"
  | ArgError "error option"
  | ArgDuration int

record ('w, 'c, 'u) loggingStorage =
  base :: "('w, 'c) Storage"
  printf :: "string \<Rightarrow> printf_arg list \<Rightarrow> 'u \<Rightarrow> 'u"
  prefix :: string
  now :: "'w \<Rightarrow> int"

text \<open>
  The six methods of \<open>loggingStorage\<close>. Each returns what the method returns, the world
  and the caller's state.
\<close>

definition logged_GetBlock ::
  "('w, 'c, 'u) loggingStorage \<Rightarrow> 'c \<Rightarrow> string \<Rightarrow> int \<Rightarrow> int \<Rightarrow> 'w \<times> 'u \<Rightarrow>
     (byte list \<times> error option) \<times> 'w \<times> 'u" where
  "logged_GetBlock s ctx i offset len = (\<lambda>(w, u).
     let t0 = now s w;
         ((result, err), w') = GetBlock (base s) ctx i offset len w;
         dt = now s w' - t0;
         u' = (if length result < 20
               then printf s (prefix s @ ''GetBlock(%q,%v,%v)=(%#v, %#v) took %v'')
                      [ArgString i, ArgInt offset, ArgInt len, ArgBytes result, ArgError err,
                       ArgDuration dt] u
               else printf s (prefix s @ ''GetBlock(%q,%v,%v)=({%#v bytes}, %#v) took %v'')
                      [ArgString i, ArgInt offset, ArgInt len, ArgInt (int (length result)),
                       ArgError err, ArgDuration dt] u)
     in ((result, err), w', u'))"

definition logged_PutBlock ::
  "('w, 'c, 'u) loggingStorage \<Rightarrow> 'c \<Rightarrow> string \<Rightarrow> byte list \<Rightarrow> 'w \<times> 'u \<Rightarrow>
     error option \<times> 'w \<times> 'u" where
  "logged_PutBlock s ctx i data = (\<lambda>(w, u).
     let t0 = now s w;
         (err, w') = PutBlock (base s) ctx i data w;
         dt = now s w' - t0
     in (err, w', printf s (prefix s @ ''PutBlock(%q,len=%v)=%#v took %v'')
                    [ArgString i, ArgInt (int (length data)), ArgError err, ArgDuration dt] u))"

definition logged_DeleteBlock ::
  "('w, 'c, 'u) loggingStorage \<Rightarrow> 'c \<Rightarrow> string \<Rightarrow> 'w \<times> 'u \<Rightarrow> error option \<times> 'w \<times> 'u" where
  "logged_DeleteBlock s ctx i = (\<lambda>(w, u).
     let t0 = now s w;
         (err, w') = DeleteBlock (base s) ctx i w;
         dt = now s w' - t0
     in (err, w', printf s (prefix s @ ''DeleteBlock(%q)=%#v took %v'')
                    [ArgString i, ArgError err, ArgDuration dt] u))"

text \<open>
  \<open>ListBlocks\<close>: the function handed to the wrapped store counts its calls in the local
  variable \<open>cnt\<close> and returns what the caller's callback returns.
\<close>

definition counting :: "('w, 'u) callback \<Rightarrow> ('w, 'u \<times> nat) callback" where
  "counting cb = (\<lambda>bi (w, (u, cnt)).
     case cb bi (w, u) of (r, w', u') \<Rightarrow> (r, w', (u', cnt + 1)))"

definition logged_ListBlocks ::
  "('w, 'c, 'u) loggingStorage \<Rightarrow> 'c \<Rightarrow> string \<Rightarrow> ('w, 'u) callback \<Rightarrow> 'w \<times> 'u \<Rightarrow>
     error option \<times> 'w \<times> 'u" where
  "logged_ListBlocks s ctx pfx cb = (\<lambda>(w, u).
     let t0 = now s w;
         (err, w', (u', cnt)) = run_listing (ListBlocks (base s) ctx pfx w) (counting cb) (u, 0)
     in (err, w', printf s (prefix s @ ''ListBlocks(%q)=%v returned %v items and took %v'')
                    [ArgString pfx, ArgError err, ArgInt (int cnt), ArgDuration (now s w' - t0)]
                    u'))"

definition logged_Close ::
  "('w, 'c, 'u) loggingStorage \<Rightarrow> 'c \<Rightarrow> 'w \<times> 'u \<Rightarrow> error option \<times> 'w \<times> 'u" where
  "logged_Close s ctx = (\<lambda>(w, u).
     let t0 = now s w;
         (err, w') = CloseStorage (base s) ctx w;
         dt = now s w' - t0
     in (err, w', printf s (prefix s @ ''Close()=%#v took %v'') [ArgError err, ArgDuration dt] u))"

definition logged_ConnectionInfo :: "('w, 'c, 'u) loggingStorage \<Rightarrow> 'w \<Rightarrow> string" where
  "logged_ConnectionInfo s w = ConnectionInfo (base s) w"

text \<open>The metadata records a listing hands to the callback, in order.\<close>

primrec callback_args :: "'w listing \<Rightarrow> ('w, 'u) callback \<Rightarrow> 'u \<Rightarrow> BlockMetadata list" where
  "callback_args (Finish err w) = (\<lambda>cb u. [])"
| "callback_args (Yield bi w k) = (\<lambda>cb u.
     case cb bi (w, u) of (r, w', u') \<Rightarrow> bi # callback_args (k r w') cb u')"

text \<open>What the caller of a store operation observes of the store: the results and the world.\<close>

definition store_view :: "'a \<times> 'w \<times> 'u \<Rightarrow> 'a \<times> 'w" where
  "store_view x = (case x of (r, w, u) \<Rightarrow> (r, w))"

definition caller_state :: "'a \<times> 'w \<times> 'u \<Rightarrow> 'u" where
  "caller_state x = (case x of (r, w, u) \<Rightarrow> u)"

section \<open>Reading an index blob back (the specification's parse contract)\<close>

text \<open>
  Modelled from the spec: the reader of index blobs (\<open>openPackIndex\<close>) and the inverse of
  \<open>contentIDToBytes\<close> are not among the sources. The reader follows the on-disk layout of
  the specification: an 8-byte header (version byte 1, key-length byte, entry length 20 as
  u16, entry count as u32), then the entries (key, then the 20-byte body), each pack-file
  ID found by ``reading \<open>length\<close> bytes at the entry's \<open>packFileOffset\<close>''. A malformed
  header or an unsupported version is a format error (\<open>None\<close>). The inverse of
  \<open>contentIDToBytes\<close> is the parameter \<open>uncid\<close>.
\<close>

definition string_of :: "byte list \<Rightarrow> string" where
  "string_of bs = map (\<lambda>b. char_of (unat b)) bs"

definition entry_info :: "(byte list \<Rightarrow> string) \<Rightarrow> byte list \<Rightarrow> nat \<Rightarrow> nat \<Rightarrow> Info" where
  "entry_info uncid blob kl j =
     \<lparr>BlockID = uncid (key_at blob kl j),
      Length = packedLength_at blob kl j,
      TimestampSeconds = drop_bit 16 (timestampAndFlags_at blob kl j),
      PackFile = string_of (slice blob (unat (packFileOffset_at blob kl j))
                   (unat (packFileOffset_at blob kl j)
                      + unat (take_bit 8 (timestampAndFlags_at blob kl j)))),
      PackOffset = take_bit 31 (packedOffset_at blob kl j),
      Deleted = bit (packedOffset_at blob kl j) 31,
      Payload = [],
      FormatVersion = ucast (drop_bit 8 (timestampAndFlags_at blob kl j))\<rparr>"

definition openPackIndex :: "(byte list \<Rightarrow> string) \<Rightarrow> byte list \<Rightarrow> Info list option" where
  "openPackIndex uncid blob =
     (if length blob < 8 then None
      else if slice blob 0 1 \<noteq> [1] then None
      else if (be_word (slice blob 2 4) :: 16 word) \<noteq> 20 then None
      else
        let kl = unat (be_word (slice blob 1 2) :: byte);
            n = unat (be_word (slice blob 4 8) :: 32 word)
        in if length blob < 8 + n * (kl + 20) then None
           else Some (map (entry_info uncid blob kl) [0..<n]))"

section \<open>Recovery of the index from the pack blobs (the block manager)\<close>

text \<open>
  Modelled from the spec: the block manager (\<open>Flush\<close>, \<open>RecoverIndexFromPackFile\<close>, the
  committed index, \<open>Get\<close>) and the map-backed blob store of its tests are not among the
  sources; only the test \<open>TestBlockIndexRecovery\<close> that drives them is. The definitions of
  this section follow the specification's blob-store contract, pack-file layout, flush
  steps, lookup policy and recovery description, and they call the builder of the sources
  (\<open>Add\<close>, \<open>Build\<close>) where the specification says an index blob is built.

  What the specification leaves open is a parameter (\<open>format\<close>): the encoding of content
  IDs and its inverse, the encoding of the block table embedded in a pack and its parser,
  and the function that computes the ID of a blob from its bytes.
\<close>

datatype manager_error = BlockNotFound | FormatError | IndexBuildFailed

type_synonym mapStorage = "string \<rightharpoonup> byte list"

definition has_prefix :: "string \<Rightarrow> string \<Rightarrow> bool" where
  "has_prefix pfx blockID = (take (length pfx) blockID = pfx)"

definition PackBlockPrefix :: string where
  "PackBlockPrefix = ''p''"

definition newIndexBlockPrefix :: string where
  "newIndexBlockPrefix = ''n''"

text \<open>
  Modelled from the spec: the blob-store contract. \<open>GetBlock\<close> returns the bytes of the
  range, the whole blob when the length is \<open>\<le> 0\<close>, and block-not-found for an absent ID.
  \<open>ListBlocks\<close> hands out the ID and the length of every blob with the prefix; the order
  of the namespace is not specified, the model lists in ascending order of ID.
\<close>

definition mapGetBlock :: "mapStorage \<Rightarrow> string \<Rightarrow> nat \<Rightarrow> int \<Rightarrow> manager_error + byte list" where
  "mapGetBlock st blockID offset len =
     (case st blockID of
        None \<Rightarrow> Inl BlockNotFound
      | Some data \<Rightarrow> Inr (if len \<le> 0 then data else slice data offset (offset + nat len)))"

definition mapPutBlock :: "mapStorage \<Rightarrow> string \<Rightarrow> byte list \<Rightarrow> mapStorage" where
  "mapPutBlock st blockID data = st(blockID \<mapsto> data)"

definition mapDeleteBlock :: "mapStorage \<Rightarrow> string \<Rightarrow> mapStorage" where
  "mapDeleteBlock st blockID = st(blockID := None)"

definition mapListBlocks :: "mapStorage \<Rightarrow> string \<Rightarrow> (string \<times> nat) list" where
  "mapListBlocks st pfx =
     map (\<lambda>blockID. (blockID, length (the (st blockID))))
       (sorted_list_of_set (Set.filter (has_prefix pfx) (dom st)))"

record format =
  contentIDToBytes :: "string \<Rightarrow> byte list"
  bytesToContentID :: "byte list \<Rightarrow> string"
  encodeTable :: "Info list \<Rightarrow> byte list"
  decodeTable :: "byte list \<Rightarrow> Info list option"
  blobID :: "byte list \<Rightarrow> string"

text \<open>
  Modelled from the spec: \<open>Put\<close> of a content ID that the committed index does not hold
  appends the payload to the pack buffer, records its offset and length, and stages an info
  with the current timestamp. The pack ID is chosen only after the bytes of the pack are
  final, so the staged info carries no pack-file ID yet.
\<close>

record put_call =
  putID :: string
  putData :: "byte list"
  putTime :: "64 word"
  putVersion :: byte

record pack_builder =
  buffer :: "byte list"
  staged :: "Info list"

definition append_block :: "pack_builder \<Rightarrow> put_call \<Rightarrow> pack_builder" where
  "append_block pk p =
     \<lparr>buffer = buffer pk @ putData p,
      staged = staged pk @
        [\<lparr>BlockID = putID p, Length = of_nat (length (putData p)),
          TimestampSeconds = putTime p, PackFile = [],
          PackOffset = of_nat (length (buffer pk)), Deleted = False, Payload = [],
          FormatVersion = putVersion p\<rparr>]\<rparr>"

definition pack_of :: "put_call list \<Rightarrow> pack_builder" where
  "pack_of puts = foldl append_block \<lparr>buffer = [], staged = []\<rparr> puts"

text \<open>
  Modelled from the spec: the pack-file layout, the payloads in insertion order, then the
  embedded block table, then the 16-byte footer (table offset and table length, u64 each;
  big-endian as everywhere in the index codec).
\<close>

definition pack_bytes :: "format \<Rightarrow> put_call list \<Rightarrow> byte list" where
  "pack_bytes fmt puts =
     (let pk = pack_of puts; tbl = encodeTable fmt (staged pk)
      in buffer pk @ tbl @ PutUint64 (of_nat (length (buffer pk)))
           @ PutUint64 (of_nat (length tbl)))"

definition pack_id :: "format \<Rightarrow> put_call list \<Rightarrow> string" where
  "pack_id fmt puts = PackBlockPrefix @ blobID fmt (pack_bytes fmt puts)"

definition pack_infos :: "format \<Rightarrow> put_call list \<Rightarrow> Info list" where
  "pack_infos fmt puts = map (\<lambda>i. i\<lparr>PackFile := pack_id fmt puts\<rparr>) (staged (pack_of puts))"

text \<open>
  Modelled from the spec: steps (c) to (e) of a flush, which a committing recovery repeats:
  the infos are folded into a fresh builder, the index blob is built, and it is uploaded
  under the index prefix.
\<close>

definition fold_infos :: "Info list \<Rightarrow> packIndexBuilder" where
  "fold_infos infos = fold Add infos Map.empty"

definition commit_infos :: "format \<Rightarrow> Info list \<Rightarrow> mapStorage \<Rightarrow> manager_error + mapStorage" where
  "commit_infos fmt infos st =
     (case Build (contentIDToBytes fmt) (fold_infos infos) of
        Done blob \<Rightarrow> Inr (mapPutBlock st (newIndexBlockPrefix @ blobID fmt blob) blob)
      | _ \<Rightarrow> Inl IndexBuildFailed)"

text \<open>
  Modelled from the spec: \<open>Flush\<close>, for each pack with at least one entry: the pack ID is
  computed from the bytes, the pack blob is uploaded under the pack prefix, and the index
  blob of its entries is committed. The packs here hold puts only (no tombstones).
\<close>

definition flush_pack :: "format \<Rightarrow> put_call list \<Rightarrow> mapStorage \<Rightarrow> manager_error + mapStorage" where
  "flush_pack fmt puts st =
     (if puts = [] then Inr st
      else commit_infos fmt (pack_infos fmt puts)
             (mapPutBlock st (pack_id fmt puts) (pack_bytes fmt puts)))"

fun Flush :: "format \<Rightarrow> put_call list list \<Rightarrow> mapStorage \<Rightarrow> manager_error + mapStorage" where
  "Flush fmt [] st = Inr st"
| "Flush fmt (puts # rest) st =
     (case flush_pack fmt puts st of
        Inl e \<Rightarrow> Inl e
      | Inr st' \<Rightarrow> Flush fmt rest st')"

text \<open>
  The first step of \<open>TestBlockIndexRecovery\<close> after the flush: every blob listed under the
  index prefix is deleted.
\<close>

definition delete_index_blobs :: "mapStorage \<Rightarrow> mapStorage" where
  "delete_index_blobs st =
     fold (\<lambda>bi s. mapDeleteBlock s (fst bi)) (mapListBlocks st newIndexBlockPrefix) st"

text \<open>
  Modelled from the spec: the committed index of a freshly opened manager. The active set
  is the set of index blobs on the store; a lookup probes each index, selects across the
  hits by greater timestamp, deleted before live on ties, and is not-found if the winner is
  deleted. An index blob that does not parse is a format error.
\<close>

definition better :: "Info \<Rightarrow> Info \<Rightarrow> bool" where
  "better i j = (TimestampSeconds j <s TimestampSeconds i \<or>
     (TimestampSeconds i = TimestampSeconds j \<and> Deleted i \<and> \<not> Deleted j))"

definition select_hit :: "Info list \<Rightarrow> Info option" where
  "select_hit hits =
     (case hits of
        [] \<Rightarrow> None
      | h # hs \<Rightarrow> Some (fold (\<lambda>i w. if better i w then i else w) hs h))"

definition probe :: "string \<Rightarrow> Info list \<Rightarrow> Info option" where
  "probe c infos = find (\<lambda>i. BlockID i = c) infos"

definition active_indexes :: "format \<Rightarrow> mapStorage \<Rightarrow> Info list option list" where
  "active_indexes fmt st =
     map (\<lambda>bi. openPackIndex (bytesToContentID fmt) (the (st (fst bi))))
       (mapListBlocks st newIndexBlockPrefix)"

definition lookup :: "format \<Rightarrow> mapStorage \<Rightarrow> string \<Rightarrow> manager_error + Info" where
  "lookup fmt st c =
     (let idx = active_indexes fmt st in
      if None \<in> set idx then Inl FormatError
      else case select_hit (List.map_filter (\<lambda>ix. probe c (the ix)) idx) of
             None \<Rightarrow> Inl BlockNotFound
           | Some i \<Rightarrow> if Deleted i then Inl BlockNotFound else Inr i)"

text \<open>
  Modelled from the spec: \<open>Get\<close> of a manager with no pending blocks. On a hit the byte
  range of the info is fetched from the pack blob with the range-get of the store.
\<close>

definition Get :: "format \<Rightarrow> mapStorage \<Rightarrow> string \<Rightarrow> manager_error + byte list" where
  "Get fmt st c =
     (case lookup fmt st c of
        Inl e \<Rightarrow> Inl e
      | Inr i \<Rightarrow> mapGetBlock st (PackFile i) (unat (PackOffset i)) (uint (Length i)))"

text \<open>
  Modelled from the spec: \<open>RecoverIndexFromPackFile\<close> reads the pack blob, finds the block
  table through the footer at the end of the \<open>packLength\<close> bytes, parses it, and yields the
  infos of the pack (the entries of the table, located in the pack \<open>packID\<close>). With
  \<open>commit\<close> the infos are committed as in a flush; without it the store is left as it is.
\<close>

definition RecoverIndexFromPackFile ::
  "format \<Rightarrow> mapStorage \<Rightarrow> string \<Rightarrow> nat \<Rightarrow> bool \<Rightarrow> manager_error + (Info list \<times> mapStorage)" where
  "RecoverIndexFromPackFile fmt st packID packLength commit =
     (case mapGetBlock st packID 0 (- 1) of
        Inl e \<Rightarrow> Inl e
      | Inr pack \<Rightarrow>
          if packLength < 16 \<or> length pack < packLength then Inl FormatError
          else
            let tableOffset = unat (be_word (slice pack (packLength - 16) (packLength - 8)) :: 64 word);
                tableLength = unat (be_word (slice pack (packLength - 8) packLength) :: 64 word)
            in if packLength - 16 < tableOffset + tableLength then Inl FormatError
               else
                 (case decodeTable fmt (slice pack tableOffset (tableOffset + tableLength)) of
                    None \<Rightarrow> Inl FormatError
                  | Some entries \<Rightarrow>
                      let infos = map (\<lambda>i. i\<lparr>PackFile := packID\<rparr>) entries
                      in if commit
                         then (case commit_infos fmt infos st of
                                 Inl e \<Rightarrow> Inl e
                               | Inr st' \<Rightarrow> Inr (infos, st'))
                         else Inr (infos, st)))"

text \<open>
  The two passes of \<open>TestBlockIndexRecovery\<close>: the pack blobs are listed, and each is
  recovered in turn, on the store the calls before it left.
\<close>

fun recover_each ::
  "format \<Rightarrow> bool \<Rightarrow> (string \<times> nat) list \<Rightarrow> mapStorage
     \<Rightarrow> manager_error + (Info list list \<times> mapStorage)" where
  "recover_each fmt commit [] st = Inr ([], st)"
| "recover_each fmt commit (bi # rest) st =
     (case RecoverIndexFromPackFile fmt st (fst bi) (snd bi) commit of
        Inl e \<Rightarrow> Inl e
      | Inr (infos, st') \<Rightarrow>
          (case recover_each fmt commit rest st' of
             Inl e \<Rightarrow> Inl e
           | Inr (others, st'') \<Rightarrow> Inr (infos # others, st'')))"

definition recover_all ::
  "format \<Rightarrow> mapStorage \<Rightarrow> bool \<Rightarrow> manager_error + (Info list list \<times> mapStorage)" where
  "recover_all fmt st commit = recover_each fmt commit (mapListBlocks st PackBlockPrefix) st"

section \<open>The pack index builder: properties\<close>

subsection \<open>The sorted slice\<close>

lemma set_sortedBlocks: "finite (dom b) \<Longrightarrow> set (sortedBlocks b) = ran b"
  by (force simp: sortedBlocks_def ran_def dom_def image_iff)


subsection \<open>Inline payloads\<close>

lemma prepareExtraData_loop_panics:
  "\<exists>it \<in> set xs. Payload it \<noteq> [] \<Longrightarrow>
   prepareExtraData_loop cid i xs layout extraData =
     Panic ''storing payloads in indexes is not supported''"
proof (induction xs arbitrary: i layout extraData)
  case Nil
  then show ?case by simp
next
  case (Cons x xs)
  show ?case
  proof (cases "Payload x = []")
    case True
    with Cons.prems have "\<exists>it \<in> set xs. Payload it \<noteq> []" by auto
    then show ?thesis using True by (simp add: Let_def Cons.IH)
  next
    case False
    then show ?thesis by (simp add: Let_def)
  qed
qed

subsection \<open>Big-endian encoding\<close>

lemma be_word_PutUint16: "be_word (PutUint16 v) = v"
  unfolding be_word_def PutUint16_def
  apply (rule bit_word_eqI)
  subgoal for n
    apply (cases "n < 8")
     apply (simp add: bit_simps)
    apply (auto simp add: bit_simps not_less)
    done
  done

lemma be_word_PutUint32: "be_word (PutUint32 v) = v"
  unfolding be_word_def PutUint32_def
  apply (rule bit_word_eqI)
  subgoal for n
    apply (cases "n < 8")
     apply (simp add: bit_simps)
    apply (cases "n < 16")
     apply (auto simp add: bit_simps not_less)[1]
    apply (cases "n < 24")
     apply (auto simp add: bit_simps not_less)[1]
    apply (auto simp add: bit_simps not_less)[1]
    done
  done

lemma be_word_PutUint64: "be_word (PutUint64 v) = v"
  unfolding be_word_def PutUint64_def
  apply (rule bit_word_eqI)
  subgoal for n
    apply (cases "n < 8")
     apply (simp add: bit_simps)
    apply (cases "n < 16")
     apply (auto simp add: bit_simps not_less)[1]
    apply (cases "n < 24")
     apply (auto simp add: bit_simps not_less)[1]
    apply (cases "n < 32")
     apply (auto simp add: bit_simps not_less)[1]
    apply (cases "n < 40")
     apply (auto simp add: bit_simps not_less)[1]
    apply (cases "n < 48")
     apply (auto simp add: bit_simps not_less)[1]
    apply (cases "n < 56")
     apply (auto simp add: bit_simps not_less)[1]
    apply (auto simp add: bit_simps not_less)[1]
    done
  done

subsection \<open>The extra data and the pack-file offsets\<close>

lemma set_first_seen [simp]: "set (first_seen xs) = set xs"
  by (induction xs rule: first_seen.induct) auto

lemma distinct_first_seen [simp]: "distinct (first_seen xs)"
  by (induction xs rule: first_seen.induct) auto

lemma offset_in_append_mem: "pf \<in> set S \<Longrightarrow> offset_in (S @ T) pf = offset_in S pf"
  by (simp add: offset_in_def takeWhile_append1)

lemma offset_in_append_new:
  "pf \<notin> set S \<Longrightarrow> offset_in (S @ pf # T) pf = length (concat (map bytes_of S))"
proof -
  assume "pf \<notin> set S"
  then have "takeWhile (\<lambda>q. q \<noteq> pf) (S @ pf # T) = S"
    by (subst takeWhile_append2) auto
  then show ?thesis by (simp add: offset_in_def)
qed

lemma prepareExtraData_loop_Done:
  assumes "\<forall>it \<in> set xs. Payload it = []"
    and "dom (packFileOffsets layout) = set S"
    and "\<forall>pf \<in> set S. packFileOffsets layout pf = Some (of_nat (offset_in S pf))"
    and "e = concat (map bytes_of S)"
  shows "\<exists>layout'.
     prepareExtraData_loop cid i xs layout e =
       Done (layout', concat (map bytes_of
          (S @ first_seen (filter (\<lambda>p. p \<noteq> [] \<and> p \<notin> set S) (map PackFile xs))))) \<and>
     (\<forall>pf \<in> set (S @ first_seen (filter (\<lambda>p. p \<noteq> [] \<and> p \<notin> set S) (map PackFile xs))).
        packFileOffsets layout' pf = Some (of_nat (offset_in
          (S @ first_seen (filter (\<lambda>p. p \<noteq> [] \<and> p \<notin> set S) (map PackFile xs))) pf))) \<and>
     entryCount layout' = entryCount layout \<and> entryLength layout' = entryLength layout \<and>
     keyLength layout' =
       (if i = 0 \<and> xs \<noteq> [] then int (length (cid (BlockID (hd xs)))) else keyLength layout)"
  using assms
proof (induction xs arbitrary: i layout e S)
  case Nil
  then show ?case by simp
next
  case (Cons x xs)
  define layout1 where
    "layout1 = (if i = 0 then layout\<lparr>keyLength := int (length (cid (BlockID x)))\<rparr> else layout)"
  have offs1: "packFileOffsets layout1 = packFileOffsets layout"
    and ec1: "entryCount layout1 = entryCount layout"
    and el1: "entryLength layout1 = entryLength layout"
    and kl1: "keyLength layout1 = (if i = 0 then int (length (cid (BlockID x))) else keyLength layout)"
    by (simp_all add: layout1_def)
  have pay: "Payload x = []" and pays: "\<forall>it \<in> set xs. Payload it = []"
    using Cons.prems(1) by auto
  show ?case
  proof (cases "PackFile x = [] \<or> PackFile x \<in> set S")
    case True
    then have seen: "PackFile x = [] \<or> packFileOffsets layout1 (PackFile x) \<noteq> None"
      using Cons.prems(2) offs1 by auto
    have step: "prepareExtraData_loop cid i (x # xs) layout e =
        prepareExtraData_loop cid (Suc i) xs layout1 e"
      using seen pay by (auto simp: Let_def layout1_def)
    have flt: "filter (\<lambda>p. p \<noteq> [] \<and> p \<notin> set S) (map PackFile (x # xs)) =
        filter (\<lambda>p. p \<noteq> [] \<and> p \<notin> set S) (map PackFile xs)"
      using True by auto
    from Cons.IH [of layout1 S e "Suc i", OF pays] Cons.prems(2,3,4) offs1
    obtain layout' where
      "prepareExtraData_loop cid (Suc i) xs layout1 e =
         Done (layout', concat (map bytes_of
          (S @ first_seen (filter (\<lambda>p. p \<noteq> [] \<and> p \<notin> set S) (map PackFile xs)))))"
      "\<forall>pf \<in> set (S @ first_seen (filter (\<lambda>p. p \<noteq> [] \<and> p \<notin> set S) (map PackFile xs))).
        packFileOffsets layout' pf = Some (of_nat (offset_in
          (S @ first_seen (filter (\<lambda>p. p \<noteq> [] \<and> p \<notin> set S) (map PackFile xs))) pf))"
      "entryCount layout' = entryCount layout1" "entryLength layout' = entryLength layout1"
      "keyLength layout' = keyLength layout1"
      by auto
    then show ?thesis
      unfolding step flt using ec1 el1 kl1 by auto
  next
    case False
    define pf where "pf = PackFile x"
    have new: "pf \<noteq> []" "pf \<notin> set S" using False by (auto simp: pf_def)
    define layout2 where
      "layout2 = layout1\<lparr>packFileOffsets := (packFileOffsets layout1)(pf \<mapsto> of_nat (length e))\<rparr>"
    have unseen: "\<not> (PackFile x = [] \<or> packFileOffsets layout1 (PackFile x) \<noteq> None)"
      using False Cons.prems(2) offs1 by (auto simp: domIff)
    have step: "prepareExtraData_loop cid i (x # xs) layout e =
        prepareExtraData_loop cid (Suc i) xs layout2 (e @ bytes_of pf)"
      using unseen pay by (simp add: Let_def layout1_def layout2_def pf_def)
    have dom2: "dom (packFileOffsets layout2) = set (S @ [pf])"
      using Cons.prems(2) offs1 by (auto simp: layout2_def)
    have offs2: "\<forall>q \<in> set (S @ [pf]). packFileOffsets layout2 q
        = Some (of_nat (offset_in (S @ [pf]) q))"
      using Cons.prems(3,4) new offs1
      by (auto simp: layout2_def offset_in_append_mem offset_in_append_new)
    have e2: "e @ bytes_of pf = concat (map bytes_of (S @ [pf]))"
      using Cons.prems(4) by simp
    have flt: "S @ first_seen (filter (\<lambda>p. p \<noteq> [] \<and> p \<notin> set S) (map PackFile (x # xs))) =
        (S @ [pf]) @ first_seen (filter (\<lambda>p. p \<noteq> [] \<and> p \<notin> set (S @ [pf])) (map PackFile xs))"
      using new by (auto simp: pf_def conj_commute intro!: arg_cong [where f = first_seen] filter_cong)
    from Cons.IH [of layout2 "S @ [pf]" "e @ bytes_of pf" "Suc i", OF pays dom2 offs2 e2]
    obtain layout' where
      "prepareExtraData_loop cid (Suc i) xs layout2 (e @ bytes_of pf) =
         Done (layout', concat (map bytes_of
          ((S @ [pf]) @ first_seen (filter (\<lambda>p. p \<noteq> [] \<and> p \<notin> set (S @ [pf])) (map PackFile xs)))))"
      "\<forall>q \<in> set ((S @ [pf]) @ first_seen (filter (\<lambda>p. p \<noteq> [] \<and> p \<notin> set (S @ [pf])) (map PackFile xs))).
        packFileOffsets layout' q = Some (of_nat (offset_in
          ((S @ [pf]) @ first_seen (filter (\<lambda>p. p \<noteq> [] \<and> p \<notin> set (S @ [pf])) (map PackFile xs))) q))"
      "entryCount layout' = entryCount layout2" "entryLength layout' = entryLength layout2"
      "keyLength layout' = keyLength layout2"
      by auto
    moreover have "entryCount layout2 = entryCount layout" "entryLength layout2 = entryLength layout"
      "keyLength layout2 = (if i = 0 then int (length (cid (BlockID x))) else keyLength layout)"
      using ec1 el1 kl1 by (simp_all add: layout2_def)
    ultimately show ?thesis
      unfolding step flt by auto
  qed
qed

subsection \<open>The entries\<close>

lemma length_PutUint32 [simp]: "length (PutUint32 v) = 4"
  by (simp add: PutUint32_def)

lemma length_PutUint64 [simp]: "length (PutUint64 v) = 8"
  by (simp add: PutUint64_def)

lemma length_entry_body [simp]: "length (entry_body it layout) = 20"
  by (simp add: entry_body_def)

lemma formatEntry_Done:
  "length entry = 20 \<Longrightarrow> PackFile it \<noteq> [] \<Longrightarrow>
   formatEntry entry it layout = Done (entry_body it layout)"
  by (simp add: formatEntry_def entry_body_def Let_def)

lemma formatEntry_empty: "PackFile it = [] \<Longrightarrow>
   formatEntry entry it layout = Failed (EmptyPackBlockID (BlockID it))"
  by (simp add: formatEntry_def)

lemma writeEntry_Done:
  assumes "length entry = 20" and "writeEntry cid w it layout entry = Done (w', entry')"
  shows "int (length (cid (BlockID it))) = keyLength layout \<and> PackFile it \<noteq> [] \<and>
         w' = w @ cid (BlockID it) @ entry_body it layout \<and> entry' = entry_body it layout"
proof (cases "PackFile it = []")
  case True
  then show ?thesis using assms(2)
    by (auto simp: writeEntry_def Let_def formatEntry_empty split: if_splits)
next
  case False
  then show ?thesis using assms
    by (auto simp: writeEntry_def Let_def formatEntry_Done split: if_splits)
qed

lemma writeEntries_Done:
  assumes "length entry = 20" and "writeEntries cid w xs layout entry = Done (w', entry')"
  shows "(\<forall>it \<in> set xs. int (length (cid (BlockID it))) = keyLength layout \<and> PackFile it \<noteq> []) \<and>
         w' = w @ concat (map (\<lambda>it. cid (BlockID it) @ entry_body it layout) xs)"
  using assms
proof (induction xs arbitrary: w entry)
  case Nil
  then show ?case by simp
next
  case (Cons x xs)
  from Cons.prems(2) obtain w1 e1 where
    one: "writeEntry cid w x layout entry = Done (w1, e1)"
    and rest: "writeEntries cid w1 xs layout e1 = Done (w', entry')"
    by (auto split: outcome.splits)
  from writeEntry_Done [OF Cons.prems(1) one]
  have x: "int (length (cid (BlockID x))) = keyLength layout" "PackFile x \<noteq> []"
    "w1 = w @ cid (BlockID x) @ entry_body x layout" "e1 = entry_body x layout"
    by auto
  have "length e1 = 20" using x(4) by simp
  from Cons.IH [OF this rest] x show ?case by auto
qed

lemma concat_uniform_length:
  "\<forall>x \<in> set xss. length x = m \<Longrightarrow> length (concat xss) = length xss * m"
  by (induction xss) auto

lemma concat_uniform_nth:
  "\<forall>x \<in> set xss. length x = m \<Longrightarrow> j < length xss \<Longrightarrow>
   take m (drop (j * m) (concat xss @ rest)) = xss ! j"
proof (induction xss arbitrary: j)
  case Nil
  then show ?case by simp
next
  case (Cons x xss)
  show ?case
  proof (cases j)
    case 0
    then show ?thesis using Cons.prems by simp
  next
    case (Suc k)
    then show ?thesis using Cons.prems Cons.IH [of k] by simp
  qed
qed

subsection \<open>What a successful \<open>Build\<close> has written\<close>

lemma Build_Done:
  assumes "Build cid b = Done blob"
  shows "\<exists>layout.
    (\<forall>it \<in> set (sortedBlocks b). Payload it = [] \<and> PackFile it \<noteq> [] \<and>
        int (length (cid (BlockID it))) = keyLength layout) \<and>
    keyLength layout = (if sortedBlocks b = [] then - 1
                        else int (length (cid (BlockID (hd (sortedBlocks b)))))) \<and>
    extraDataOffset layout =
      word_of_int (8 + int (length (sortedBlocks b)) * (keyLength layout + 20)) \<and>
    (\<forall>pf \<in> set (first_seen (map PackFile (sortedBlocks b))).
        packFileOffsets layout pf =
          Some (of_nat (offset_in (first_seen (map PackFile (sortedBlocks b))) pf))) \<and>
    blob = ([1, word_of_int (keyLength layout)] @ PutUint16 20
              @ PutUint32 (of_nat (length (sortedBlocks b))))
           @ concat (map (\<lambda>it. cid (BlockID it) @ entry_body it layout) (sortedBlocks b))
           @ concat (map bytes_of (first_seen (map PackFile (sortedBlocks b))))"
proof -
  define bs where "bs = sortedBlocks b"
  define layout0 where
    "layout0 = \<lparr>packFileOffsets = Map.empty, entryCount = int (length bs),
                 keyLength = - 1, entryLength = 20, extraDataOffset = 0\<rparr>"
  define pfs0 where "pfs0 = first_seen (filter (\<lambda>p. p \<noteq> [] \<and> p \<notin> set []) (map PackFile bs))"
  have nopay: "\<forall>it \<in> set bs. Payload it = []"
  proof (rule ccontr)
    assume "\<not> (\<forall>it \<in> set bs. Payload it = [])"
    then have "\<exists>it \<in> set bs. Payload it \<noteq> []" by blast
    then have "Build cid b = Panic ''storing payloads in indexes is not supported''"
      by (simp add: Build_def prepareExtraData_def prepareExtraData_loop_panics Let_def bs_def)
    with assms show False by simp
  qed
  from prepareExtraData_loop_Done [of bs layout0 "[]" "[]" cid 0, OF nopay]
  obtain layout1 where
    loop: "prepareExtraData_loop cid 0 bs layout0 [] = Done (layout1, concat (map bytes_of pfs0))"
    and offs: "\<forall>pf \<in> set pfs0. packFileOffsets layout1 pf = Some (of_nat (offset_in pfs0 pf))"
    and ec: "entryCount layout1 = int (length bs)" and el: "entryLength layout1 = 20"
    and kl: "keyLength layout1 = (if bs \<noteq> [] then int (length (cid (BlockID (hd bs)))) else - 1)"
    by (auto simp: layout0_def pfs0_def)
  define layout where
    "layout = layout1\<lparr>extraDataOffset :=
       word_of_int (8 + entryCount layout1 * (keyLength layout1 + entryLength layout1))\<rparr>"
  have prep: "prepareExtraData cid bs layout0 = Done (layout, concat (map bytes_of pfs0))"
    by (simp add: prepareExtraData_def loop layout_def)
  have fields: "keyLength layout = keyLength layout1" "entryLength layout = 20"
    "entryCount layout = int (length bs)" "packFileOffsets layout = packFileOffsets layout1"
    "extraDataOffset layout = word_of_int (8 + int (length bs) * (keyLength layout1 + 20))"
    using ec el by (simp_all add: layout_def)
  define header where
    "header = [1, word_of_int (keyLength layout)] @ PutUint16 20 @ PutUint32 (of_nat (length bs))"
  have B: "Build cid b =
      (case writeEntries cid header bs layout (replicate 20 0) of
         Panic m \<Rightarrow> Panic m | Failed e \<Rightarrow> Failed e
       | Done (w, entry') \<Rightarrow> Done (w @ concat (map bytes_of pfs0)))"
    unfolding Build_def Let_def bs_def [symmetric] layout0_def [symmetric]
    by (simp add: prep fields header_def)
  from assms obtain w e' where
    we: "writeEntries cid header bs layout (replicate 20 0) = Done (w, e')"
    and blob: "blob = w @ concat (map bytes_of pfs0)"
    unfolding B by (auto split: outcome.splits)
  from writeEntries_Done [OF _ we]
  have ents: "\<forall>it \<in> set bs. int (length (cid (BlockID it))) = keyLength layout \<and> PackFile it \<noteq> []"
    and w: "w = header @ concat (map (\<lambda>it. cid (BlockID it) @ entry_body it layout) bs)"
    by auto
  have "filter (\<lambda>p. p \<noteq> [] \<and> p \<notin> set []) (map PackFile bs) = map PackFile bs"
    using ents by (auto simp: filter_id_conv)
  then have pfs0: "pfs0 = first_seen (map PackFile bs)" by (simp add: pfs0_def)
  have 1: "\<forall>it \<in> set bs. Payload it = [] \<and> PackFile it \<noteq> [] \<and>
        int (length (cid (BlockID it))) = keyLength layout"
    using nopay ents by blast
  have 2: "keyLength layout = (if bs = [] then - 1 else int (length (cid (BlockID (hd bs)))))"
    using kl fields(1) by simp
  have 3: "extraDataOffset layout = word_of_int (8 + int (length bs) * (keyLength layout + 20))"
    using fields(1,5) by simp
  have 4: "\<forall>pf \<in> set (first_seen (map PackFile bs)).
        packFileOffsets layout pf = Some (of_nat (offset_in (first_seen (map PackFile bs)) pf))"
    using offs fields(4) pfs0 by simp
  have 5: "blob = ([1, word_of_int (keyLength layout)] @ PutUint16 20
              @ PutUint32 (of_nat (length bs)))
           @ concat (map (\<lambda>it. cid (BlockID it) @ entry_body it layout) bs)
           @ concat (map bytes_of (first_seen (map PackFile bs)))"
    using blob w pfs0 header_def by simp
  show ?thesis
    unfolding bs_def [symmetric] using 1 2 3 4 5 by blast
qed

subsection \<open>Builders made by \<open>Add\<close>\<close>

lemma sortedBlocks_inv:
  assumes "builder_inv b"
  shows "sortedBlocks b = map (\<lambda>k. the (b k)) (sorted_list_of_set (dom b))"
    and "map BlockID (sortedBlocks b) = sorted_list_of_set (dom b)"
proof -
  have fin: "finite (dom b)" and key: "\<forall>k \<in> dom b. BlockID (the (b k)) = k"
    using assms by (auto simp: builder_inv_def)
  have "map (BlockID \<circ> (\<lambda>k. the (b k))) (sorted_list_of_set (dom b))
      = sorted_list_of_set (dom b)"
    by (rule map_idI) (use fin key in auto)
  then have m: "map BlockID (map (\<lambda>k. the (b k)) (sorted_list_of_set (dom b)))
      = sorted_list_of_set (dom b)"
    by simp
  have "sorted (map BlockID (map (\<lambda>k. the (b k)) (sorted_list_of_set (dom b))))"
    unfolding m by simp
  then show 1: "sortedBlocks b = map (\<lambda>k. the (b k)) (sorted_list_of_set (dom b))"
    unfolding sortedBlocks_def by (rule sort_key_id_if_sorted)
  show "map BlockID (sortedBlocks b) = sorted_list_of_set (dom b)"
    unfolding 1 by (rule m)
qed


lemma sortedBlocks_enumeration:
  assumes "builder_inv b" and "distinct ks" and "set ks = dom b"
  shows "sort_key BlockID (map (\<lambda>k. the (b k)) ks) = sortedBlocks b"
proof (rule sort_key_inj_key_eq)
  have fin: "finite (dom b)" and key: "\<forall>k \<in> dom b. BlockID (the (b k)) = k"
    using assms(1) by (auto simp: builder_inv_def)
  have "mset ks = mset (sorted_list_of_set (dom b))"
    using assms(2,3) fin by (simp add: set_eq_iff_mset_eq_distinct [symmetric])
  then show "mset (map (\<lambda>k. the (b k)) ks) = mset (sortedBlocks b)"
    unfolding sortedBlocks_inv(1) [OF assms(1)] by simp
  show "inj_on BlockID (set (map (\<lambda>k. the (b k)) ks))"
  proof (rule inj_onI)
    fix x y
    assume "x \<in> set (map (\<lambda>k. the (b k)) ks)" "y \<in> set (map (\<lambda>k. the (b k)) ks)"
      and eq: "BlockID x = BlockID y"
    then obtain kx ky where k: "kx \<in> dom b" "x = the (b kx)" "ky \<in> dom b" "y = the (b ky)"
      using assms(3) by auto
    then have "kx = ky" using key eq by metis
    then show "x = y" using k by simp
  qed
  show "sorted (map BlockID (sortedBlocks b))"
    unfolding sortedBlocks_inv(2) [OF assms(1)] by simp
qed

subsection \<open>Reading the entries back\<close>



lemma length_PutUint16 [simp]: "length (PutUint16 v) = 2"
  by (simp add: PutUint16_def)

lemma slice_entry_body:
  "slice (entry_body it layout) 0 8 =
     PutUint64 (push_bit 16 (TimestampSeconds it) OR push_bit 8 (ucast (FormatVersion it))
                  OR of_nat (length (PackFile it)))"
  "slice (entry_body it layout) 8 12 =
     PutUint32 (extraDataOffset layout +
          (case packFileOffsets layout (PackFile it) of None \<Rightarrow> 0 | Some off \<Rightarrow> off))"
  "slice (entry_body it layout) 12 16 =
     PutUint32 (if Deleted it then PackOffset it OR 0x80000000 else PackOffset it)"
  "slice (entry_body it layout) 16 20 = PutUint32 (Length it)"
  by (simp_all add: slice_def entry_body_def)

lemma Build_Done_entries:
  assumes "Build cid b = Done blob" and "j < length (sortedBlocks b)"
  shows "\<exists>layout.
    extraDataOffset layout =
      of_nat (8 + length (sortedBlocks b) * (key_len cid b + 20)) \<and>
    (\<forall>pf \<in> set (first_seen (map PackFile (sortedBlocks b))).
        packFileOffsets layout pf =
          Some (of_nat (offset_in (first_seen (map PackFile (sortedBlocks b))) pf))) \<and>
    PackFile (sortedBlocks b ! j) \<noteq> [] \<and>
    key_at blob (key_len cid b) j = cid (BlockID (sortedBlocks b ! j)) \<and>
    body_at blob (key_len cid b) j = entry_body (sortedBlocks b ! j) layout"
proof -
  define bs where "bs = sortedBlocks b"
  define kl where "kl = key_len cid b"
  from Build_Done [OF assms(1)] obtain layout where
    all: "\<forall>it \<in> set bs. Payload it = [] \<and> PackFile it \<noteq> [] \<and>
        int (length (cid (BlockID it))) = keyLength layout"
    and klen: "keyLength layout = (if bs = [] then - 1 else int (length (cid (BlockID (hd bs)))))"
    and edo: "extraDataOffset layout = word_of_int (8 + int (length bs) * (keyLength layout + 20))"
    and offs: "\<forall>pf \<in> set (first_seen (map PackFile bs)).
        packFileOffsets layout pf = Some (of_nat (offset_in (first_seen (map PackFile bs)) pf))"
    and blob: "blob = ([1, word_of_int (keyLength layout)] @ PutUint16 20
              @ PutUint32 (of_nat (length bs)))
           @ concat (map (\<lambda>it. cid (BlockID it) @ entry_body it layout) bs)
           @ concat (map bytes_of (first_seen (map PackFile bs)))"
    unfolding bs_def by blast
  have j: "j < length bs" using assms(2) by (simp add: bs_def)
  then have ne: "bs \<noteq> []" by auto
  then have kl: "keyLength layout = int kl"
    using klen by (cases bs) (auto simp: kl_def key_len_def bs_def)
  have keys: "\<forall>it \<in> set bs. length (cid (BlockID it)) = kl"
    using all kl by auto
  define chunks where "chunks = map (\<lambda>it. cid (BlockID it) @ entry_body it layout) bs"
  have uni: "\<forall>x \<in> set chunks. length x = kl + 20"
    using keys by (auto simp: chunks_def)
  have jc: "j < length chunks" using j by (simp add: chunks_def)
  define header where
    "header = [1, word_of_int (keyLength layout)] @ PutUint16 20 @ PutUint32 (of_nat (length bs))"
  define R where "R = concat chunks @ concat (map bytes_of (first_seen (map PackFile bs)))"
  have hl: "length header = 8" by (simp add: header_def)
  have blob': "blob = header @ R"
    unfolding blob header_def R_def chunks_def by simp
  have "drop (8 + j * (kl + 20)) blob = drop (j * (kl + 20)) R"
    unfolding blob' using hl by simp
  then have tk: "take (kl + 20) (drop (8 + j * (kl + 20)) blob) = chunks ! j"
    using concat_uniform_nth [OF uni jc] by (simp add: R_def)
  have cj: "chunks ! j = cid (BlockID (bs ! j)) @ entry_body (bs ! j) layout"
    using j by (simp add: chunks_def)
  have lk: "length (cid (BlockID (bs ! j))) = kl" using keys j by simp
  have "key_at blob kl j = take kl (take (kl + 20) (drop (8 + j * (kl + 20)) blob))"
    by (simp add: key_at_def slice_def)
  then have key: "key_at blob kl j = cid (BlockID (bs ! j))"
    unfolding tk cj using lk by simp
  have "body_at blob kl j = drop kl (take (kl + 20) (drop (8 + j * (kl + 20)) blob))"
    by (simp add: body_at_def slice_def drop_take add.commute)
  then have body: "body_at blob kl j = entry_body (bs ! j) layout"
    unfolding tk cj using lk by simp
  have "(8::int) + int (length bs) * (int kl + 20) = int (8 + length bs * (kl + 20))"
    by simp
  then have edo': "extraDataOffset layout = of_nat (8 + length bs * (kl + 20))"
    unfolding edo kl by (simp only: of_int_of_nat_eq)
  have "PackFile (bs ! j) \<noteq> []" using all j by simp
  then show ?thesis
    unfolding bs_def [symmetric] kl_def [symmetric]
    using edo' offs key body by blast
qed

subsection \<open>The sections of the blob and the fields of an entry\<close>

lemma Build_Done_sections:
  assumes "Build cid b = Done blob"
  shows "take 8 blob = [1, if sortedBlocks b = [] then 255 else of_nat (key_len cid b)]
            @ PutUint16 20 @ PutUint32 (of_nat (length (sortedBlocks b)))"
    and "drop (8 + length (sortedBlocks b) * (key_len cid b + 20)) blob
          = concat (map bytes_of (first_seen (map PackFile (sortedBlocks b))))"
proof -
  define bs where "bs = sortedBlocks b"
  define kl where "kl = key_len cid b"
  from Build_Done [OF assms(1)] obtain layout where
    all: "\<forall>it \<in> set bs. Payload it = [] \<and> PackFile it \<noteq> [] \<and>
        int (length (cid (BlockID it))) = keyLength layout"
    and klen: "keyLength layout = (if bs = [] then - 1 else int (length (cid (BlockID (hd bs)))))"
    and blob: "blob = ([1, word_of_int (keyLength layout)] @ PutUint16 20
              @ PutUint32 (of_nat (length bs)))
           @ concat (map (\<lambda>it. cid (BlockID it) @ entry_body it layout) bs)
           @ concat (map bytes_of (first_seen (map PackFile bs)))"
    unfolding bs_def by blast
  define header where
    "header = [1, word_of_int (keyLength layout)] @ PutUint16 20 @ PutUint32 (of_nat (length bs))"
  define chunks where "chunks = map (\<lambda>it. cid (BlockID it) @ entry_body it layout) bs"
  define E where "E = concat (map bytes_of (first_seen (map PackFile bs)))"
  have hl: "length header = 8" by (simp add: header_def)
  have blob': "blob = header @ concat chunks @ E"
    unfolding blob header_def chunks_def E_def by simp
  have klb: "(word_of_int (keyLength layout) :: byte) = (if bs = [] then 255 else of_nat kl)"
  proof (cases bs)
    case Nil
    then show ?thesis using klen by simp
  next
    case (Cons x xs)
    then have "keyLength layout = int kl"
      using klen by (simp add: kl_def key_len_def bs_def [symmetric])
    then show ?thesis using Cons by simp
  qed
  have "take 8 blob = header" unfolding blob' using hl by simp
  then show "take 8 blob = [1, if sortedBlocks b = [] then 255 else of_nat (key_len cid b)]
            @ PutUint16 20 @ PutUint32 (of_nat (length (sortedBlocks b)))"
    unfolding header_def klb bs_def kl_def by simp
  have keys: "\<forall>x \<in> set chunks. length x = kl + 20"
  proof (cases bs)
    case Nil
    then show ?thesis by (simp add: chunks_def)
  next
    case (Cons x xs)
    then have "keyLength layout = int kl"
      using klen by (simp add: kl_def key_len_def bs_def [symmetric])
    then show ?thesis using all by (auto simp: chunks_def)
  qed
  have "length (concat chunks) = length bs * (kl + 20)"
    using concat_uniform_length [OF keys] by (simp add: chunks_def)
  then have "drop (8 + length bs * (kl + 20)) blob = E"
    unfolding blob' using hl by simp
  then show "drop (8 + length (sortedBlocks b) * (key_len cid b + 20)) blob
          = concat (map bytes_of (first_seen (map PackFile (sortedBlocks b))))"
    unfolding E_def bs_def kl_def .
qed

lemma concat_at_offset_in:
  assumes "pf \<in> set pfs"
  shows "take (length pf) (drop (offset_in pfs pf) (concat (map bytes_of pfs))) = bytes_of pf"
proof -
  have ne: "dropWhile (\<lambda>q. q \<noteq> pf) pfs \<noteq> []"
    using assms by (simp add: dropWhile_eq_Nil_conv)
  then have "hd (dropWhile (\<lambda>q. q \<noteq> pf) pfs) = pf"
    using hd_dropWhile [of "\<lambda>q. q \<noteq> pf" pfs] by simp
  with ne obtain post where dw: "dropWhile (\<lambda>q. q \<noteq> pf) pfs = pf # post"
    by (cases "dropWhile (\<lambda>q. q \<noteq> pf) pfs") auto
  have split: "pfs = takeWhile (\<lambda>q. q \<noteq> pf) pfs @ pf # post"
    using takeWhile_dropWhile_id [of "\<lambda>q. q \<noteq> pf" pfs] dw by simp
  define pre where "pre = takeWhile (\<lambda>q. q \<noteq> pf) pfs"
  have "concat (map bytes_of pfs) =
      concat (map bytes_of pre) @ bytes_of pf @ concat (map bytes_of post)"
    by (subst split) (simp add: pre_def)
  moreover have "offset_in pfs pf = length (concat (map bytes_of pre))"
    by (simp add: offset_in_def pre_def)
  moreover have "length (bytes_of pf) = length pf" by (simp add: bytes_of_def)
  ultimately show ?thesis by simp
qed

lemma timestampAndFlags_fields:
  fixes ts :: "64 word" and fv :: byte
  assumes "ts < 2 ^ 48" and "n < 256"
  shows "drop_bit 16 (push_bit 16 ts OR push_bit 8 (ucast fv) OR of_nat n) = ts"
    and "ucast (drop_bit 8 (push_bit 16 ts OR push_bit 8 (ucast fv) OR (of_nat n :: 64 word))) = fv"
    and "unat (take_bit 8 (push_bit 16 ts OR push_bit 8 (ucast fv) OR (of_nat n :: 64 word))) = n"
proof -
  have ts: "take_bit 48 ts = ts" using assms(1) by (simp add: take_bit_eq_mask less_mask_eq)
  have lt: "(of_nat n :: 64 word) < 2 ^ 8"
    using assms(2) by (simp add: word_less_nat_alt unat_of_nat)
  have n: "take_bit 8 (of_nat n :: 64 word) = of_nat n"
    using less_mask_eq [OF lt] by (simp add: take_bit_eq_mask)
  define w :: "64 word" where "w = of_nat n"
  have bn: "\<And>k. bit w k \<Longrightarrow> k < 8"
    unfolding w_def by (subst (asm) n [symmetric]) (simp add: bit_simps)
  have bts: "\<And>k. bit ts k \<Longrightarrow> k < 48"
    by (subst (asm) ts [symmetric]) (simp add: bit_simps)
  have "drop_bit 16 (push_bit 16 ts OR push_bit 8 (ucast fv) OR w) = ts"
    apply (rule bit_word_eqI)
    apply (auto simp: bit_simps dest: bn bts bit_imp_le_length)
    done
  then show "drop_bit 16 (push_bit 16 ts OR push_bit 8 (ucast fv) OR of_nat n) = ts"
    by (simp only: w_def)
  have "ucast (drop_bit 8 (push_bit 16 ts OR push_bit 8 (ucast fv) OR w)) = fv"
    apply (rule bit_word_eqI)
    apply (auto simp: bit_simps dest: bn bts bit_imp_le_length)
    done
  then show "ucast (drop_bit 8 (push_bit 16 ts OR push_bit 8 (ucast fv) OR (of_nat n :: 64 word))) = fv"
    by (simp only: w_def)
  have "take_bit 8 (push_bit 16 ts OR push_bit 8 (ucast fv) OR w) = w"
    apply (rule bit_word_eqI)
    apply (auto simp: bit_simps dest: bn bts bit_imp_le_length)
    done
  then have "unat (take_bit 8 (push_bit 16 ts OR push_bit 8 (ucast fv) OR w)) = unat w"
    by (simp only:)
  also have "unat w = n" using assms(2) by (simp add: w_def unat_of_nat)
  finally show "unat (take_bit 8 (push_bit 16 ts OR push_bit 8 (ucast fv) OR (of_nat n :: 64 word))) = n"
    by (simp only: w_def)
qed

lemma bit_high_constant: "bit (0x80000000 :: 32 word) k = (k = 31)"
proof -
  have "(0x80000000 :: 32 word) = 2 ^ 31" by simp
  then have "bit (0x80000000 :: 32 word) k = bit (2 ^ 31 :: 32 word) k" by (simp only:)
  also have "\<dots> = (k = 31)" by (simp only: bit_exp_iff possible_bit_word) auto
  finally show ?thesis .
qed

lemma packedOffset_fields:
  fixes po :: "32 word"
  assumes "po < 2 ^ 31"
  shows "bit (if d then po OR 0x80000000 else po) 31 = d"
    and "take_bit 31 (if d then po OR 0x80000000 else po) = po"
proof -
  have po: "take_bit 31 po = po" using assms by (simp add: take_bit_eq_mask less_mask_eq)
  have bpo: "\<And>k. bit po k \<Longrightarrow> k < 31"
    by (subst (asm) po [symmetric]) (simp add: bit_simps)
  have t: "take_bit 31 (po OR 0x80000000) = po"
    apply (rule bit_word_eqI)
    apply (simp add: bit_take_bit_iff bit_or_iff bit_high_constant)
    using bpo apply auto
    done
  have b: "bit (po OR 0x80000000) 31" "\<not> bit po 31"
    using bpo [of 31] by (auto simp: bit_or_iff bit_high_constant)
  show "bit (if d then po OR 0x80000000 else po) 31 = d"
    using b by (cases d) (simp_all only: if_True if_False simp_thms)
  show "take_bit 31 (if d then po OR 0x80000000 else po) = po"
    using t po by (cases d) (simp_all only: if_True if_False)
qed

subsection \<open>The example builders, evaluated\<close>











section \<open>The logging wrapper: properties\<close>

lemma counting_apply:
  "counting cb bi (w, (u, n)) = (case cb bi (w, u) of (r, w', u') \<Rightarrow> (r, w', (u', n + 1)))"
  by (simp add: counting_def)

lemma run_listing_counting:
  "run_listing l (counting cb) (u, n) =
     (case run_listing l cb u of (err, w', u') \<Rightarrow>
        (err, w', (u', n + length (callback_args l cb u))))"
proof (induction l arbitrary: u n)
  case (Finish err w)
  then show ?case by simp
next
  case (Yield bi w k)
  obtain r w' u' where cb: "cb bi (w, u) = (r, w', u')" by (cases "cb bi (w, u)")
  have "k r w' \<in> range (k r)" by simp 
  then have IH: "\<And>u n. run_listing (k r w') (counting cb) (u, n) =
     (case run_listing (k r w') cb u of (err, w'', u'') \<Rightarrow>
        (err, w'', (u'', n + length (callback_args (k r w') cb u))))"
    using Yield.IH by blast
  show ?case
    by (simp add: cb counting_apply IH split: prod.splits)
qed

lemma callback_args_counting:
  "callback_args l (counting cb) (u, n) = callback_args l cb u"
proof (induction l arbitrary: u n)
  case (Finish err w)
  then show ?case by simp
next
  case (Yield bi w k)
  obtain r w' u' where cb: "cb bi (w, u) = (r, w', u')" by (cases "cb bi (w, u)")
  have IH: "\<And>u n. callback_args (k r w') (counting cb) (u, n) = callback_args (k r w') cb u"
    using Yield.IH by blast
  show ?case
    by (simp add: cb counting_apply IH)
qed

section \<open>Facts about reading an index blob back\<close>

lemma unat_of_char: "unat (of_char c :: byte) = of_char c"
proof -
  have "(of_char c :: byte) = of_nat (of_char c)" by (simp only: of_nat_of_char)
  then have "unat (of_char c :: byte) = (of_char c :: nat) mod 256"
    by (simp add: unat_of_nat)
  then show ?thesis by simp
qed

lemma string_of_bytes_of [simp]: "string_of (bytes_of s) = s"
  by (simp add: string_of_def bytes_of_def comp_def unat_of_char map_idI)

lemma Build_Done_length:
  assumes "Build cid b = Done blob"
  shows "length blob = 8 + length (sortedBlocks b) * (key_len cid b + 20)
      + length (concat (map bytes_of (first_seen (map PackFile (sortedBlocks b)))))"
proof -
  define bs where "bs = sortedBlocks b"
  define kl where "kl = key_len cid b"
  from Build_Done [OF assms(1)] obtain layout where
    all: "\<forall>it \<in> set bs. Payload it = [] \<and> PackFile it \<noteq> [] \<and>
        int (length (cid (BlockID it))) = keyLength layout"
    and klen: "keyLength layout = (if bs = [] then - 1 else int (length (cid (BlockID (hd bs)))))"
    and blob: "blob = ([1, word_of_int (keyLength layout)] @ PutUint16 20
              @ PutUint32 (of_nat (length bs)))
           @ concat (map (\<lambda>it. cid (BlockID it) @ entry_body it layout) bs)
           @ concat (map bytes_of (first_seen (map PackFile bs)))"
    unfolding bs_def by blast
  define chunks where "chunks = map (\<lambda>it. cid (BlockID it) @ entry_body it layout) bs"
  have keys: "\<forall>x \<in> set chunks. length x = kl + 20"
  proof (cases bs)
    case Nil
    then show ?thesis by (simp add: chunks_def)
  next
    case (Cons x xs)
    then have "keyLength layout = int kl"
      using klen by (simp add: kl_def key_len_def bs_def [symmetric])
    then show ?thesis using all by (auto simp: chunks_def)
  qed
  have "length (concat chunks) = length bs * (kl + 20)"
    using concat_uniform_length [OF keys] by (simp add: chunks_def)
  then show ?thesis
    unfolding blob bs_def [symmetric] kl_def [symmetric] chunks_def [symmetric] by simp
qed

lemma entry_info_Build:
  assumes B: "Build cid b = Done blob" and j: "j < length (sortedBlocks b)"
    and small: "length blob \<le> 2 ^ 32"
    and ts: "TimestampSeconds (sortedBlocks b ! j) < 2 ^ 48"
    and pfl: "length (PackFile (sortedBlocks b ! j)) < 256"
    and po: "PackOffset (sortedBlocks b ! j) < 2 ^ 31"
    and un: "uncid (cid (BlockID (sortedBlocks b ! j))) = BlockID (sortedBlocks b ! j)"
  shows "entry_info uncid blob (key_len cid b) j = sortedBlocks b ! j"
proof -
  define bs where "bs = sortedBlocks b"
  define kl where "kl = key_len cid b"
  define pfs where "pfs = first_seen (map PackFile bs)"
  define A where "A = 8 + length bs * (kl + 20)"
  define it where "it = bs ! j"
  define pf where "pf = PackFile it"
  from Build_Done [OF B] have "\<forall>x \<in> set bs. Payload x = []"
    unfolding bs_def by blast
  then have pay: "Payload it = []" using j by (simp add: it_def bs_def)
  from Build_Done_entries [OF B j] obtain layout where
    edo: "extraDataOffset layout = of_nat A"
    and offs: "\<forall>q \<in> set pfs. packFileOffsets layout q = Some (of_nat (offset_in pfs q))"
    and pfne: "pf \<noteq> []"
    and key: "key_at blob kl j = cid (BlockID it)"
    and body: "body_at blob kl j = entry_body it layout"
    unfolding bs_def kl_def pfs_def A_def pf_def it_def by auto
  have c5: "drop A blob = concat (map bytes_of pfs)"
    unfolding A_def pfs_def bs_def kl_def by (rule Build_Done_sections(2) [OF B])
  have mem: "pf \<in> set pfs"
    using j by (simp add: pfs_def pf_def it_def bs_def)
  have taf: "timestampAndFlags_at blob kl j =
      push_bit 16 (TimestampSeconds it) OR push_bit 8 (ucast (FormatVersion it))
        OR of_nat (length pf)"
    unfolding timestampAndFlags_at_def body slice_entry_body pf_def by (rule be_word_PutUint64)
  have pko: "packedOffset_at blob kl j =
      (if Deleted it then PackOffset it OR 0x80000000 else PackOffset it)"
    unfolding packedOffset_at_def body slice_entry_body by (rule be_word_PutUint32)
  have pkl: "packedLength_at blob kl j = Length it"
    unfolding packedLength_at_def body slice_entry_body by (rule be_word_PutUint32)
  have "packFileOffset_at blob kl j = extraDataOffset layout +
        (case packFileOffsets layout pf of None \<Rightarrow> 0 | Some off \<Rightarrow> off)"
    unfolding packFileOffset_at_def body slice_entry_body pf_def by (rule be_word_PutUint32)
  also have "\<dots> = of_nat A + of_nat (offset_in pfs pf)"
    using offs mem edo by simp
  finally have pfo: "packFileOffset_at blob kl j = of_nat (A + offset_in pfs pf)"
    by simp
  have "slice blob (A + offset_in pfs pf) (A + offset_in pfs pf + length pf)
      = take (length pf) (drop (offset_in pfs pf) (drop A blob))"
    by (simp add: slice_def add.commute)
  also have "\<dots> = bytes_of pf"
    unfolding c5 using mem by (rule concat_at_offset_in)
  finally have sl: "slice blob (A + offset_in pfs pf) (A + offset_in pfs pf + length pf)
      = bytes_of pf" .
  have "length (take (length pf) (drop (A + offset_in pfs pf) blob)) = length pf"
    using sl by (simp add: slice_def bytes_of_def)
  then have "A + offset_in pfs pf < length blob"
    using pfne by (cases "A + offset_in pfs pf < length blob") auto
  then have "A + offset_in pfs pf < 2 ^ 32" using small by simp
  moreover have "m < 2 ^ 32 \<Longrightarrow> unat (of_nat m :: 32 word) = m" for m
    by (simp add: unat_of_nat)
  ultimately have "unat (of_nat (A + offset_in pfs pf) :: 32 word) = A + offset_in pfs pf"
    by blast
  then have unp: "unat (packFileOffset_at blob kl j) = A + offset_in pfs pf"
    unfolding pfo .
  have ts': "TimestampSeconds it < 2 ^ 48" and pfl': "length pf < 256"
    and po': "PackOffset it < 2 ^ 31" and un': "uncid (cid (BlockID it)) = BlockID it"
    using ts pfl po un by (simp_all add: it_def bs_def pf_def)
  note f1 = timestampAndFlags_fields [OF ts' pfl', of "FormatVersion it"]
  note f2 = packedOffset_fields [OF po', of "Deleted it"]
  have "entry_info uncid blob kl j = it"
    unfolding entry_info_def unp key pkl
    unfolding taf pko f1 f2 sl
    by (simp add: un' pay pf_def)
  then show ?thesis by (simp add: kl_def it_def bs_def)
qed

lemma openPackIndex_Build:
  assumes B: "Build cid b = Done blob" and ne: "sortedBlocks b \<noteq> []"
    and small: "length blob \<le> 2 ^ 32" and klsmall: "key_len cid b < 256"
    and ok: "\<forall>it \<in> set (sortedBlocks b). TimestampSeconds it < 2 ^ 48 \<and>
        length (PackFile it) < 256 \<and> PackOffset it < 2 ^ 31 \<and>
        uncid (cid (BlockID it)) = BlockID it"
  shows "openPackIndex uncid blob = Some (sortedBlocks b)"
proof -
  define bs where "bs = sortedBlocks b"
  define kl where "kl = key_len cid b"
  define n where "n = length bs"
  have len: "length blob = 8 + n * (kl + 20)
      + length (concat (map bytes_of (first_seen (map PackFile bs))))"
    using Build_Done_length [OF B] by (simp add: bs_def kl_def n_def)
  have npos: "0 < n" using ne by (simp add: n_def bs_def)
  have "n \<le> n * (kl + 20)" by simp
  then have nsmall: "n < 2 ^ 32" using len small by linarith
  have hd8: "take 8 blob = [1, of_nat kl] @ PutUint16 20 @ PutUint32 (of_nat n)"
    using Build_Done_sections(1) [OF B] ne by (simp add: bs_def kl_def n_def)
  have s0: "slice blob 0 1 = take 1 (take 8 blob)"
    and s1: "slice blob 1 2 = take 1 (drop 1 (take 8 blob))"
    and s2: "slice blob 2 4 = take 2 (drop 2 (take 8 blob))"
    and s3: "slice blob 4 8 = drop 4 (take 8 blob)"
    by (simp_all add: slice_def drop_take)
  have h0: "slice blob 0 1 = [1]" unfolding s0 hd8 by simp
  have "slice blob 1 2 = [of_nat kl]" unfolding s1 hd8 by simp
  then have "(be_word (slice blob 1 2) :: byte) = of_nat kl"
    by (simp add: be_word_def)
  then have h1: "unat (be_word (slice blob 1 2) :: byte) = kl"
    using klsmall by (simp add: unat_of_nat kl_def)
  have "slice blob 2 4 = PutUint16 20" unfolding s2 hd8 by simp
  then have h2: "(be_word (slice blob 2 4) :: 16 word) = 20"
    by (simp only: be_word_PutUint16)
  have "slice blob 4 8 = PutUint32 (of_nat n)" unfolding s3 hd8 by simp
  then have "(be_word (slice blob 4 8) :: 32 word) = of_nat n"
    by (simp only: be_word_PutUint32)
  then have h3: "unat (be_word (slice blob 4 8) :: 32 word) = n"
    using nsmall by (simp add: unat_of_nat)
  have ent: "entry_info uncid blob kl j = bs ! j" if "j < n" for j
    unfolding kl_def bs_def
    using that ok by (intro entry_info_Build [OF B _ small]) (simp_all add: n_def bs_def)
  have "map (entry_info uncid blob kl) [0..<n] = bs"
    by (rule nth_equalityI) (simp_all add: n_def ent)
  then have "openPackIndex uncid blob = Some bs"
    unfolding openPackIndex_def Let_def h0 h1 h2 h3 using len by simp
  then show ?thesis by (simp add: bs_def)
qed

section \<open>Merge-on-add\<close>




text \<open>
  C3. An info added for a content ID that is already present. The claim: a strictly greater
  timestamp replaces the entry, an equal timestamp keeps the existing entry. The comment on
  \<open>Add\<close> says the same (``conditionally replaces it if the timestamp is greater''), but the
  comparison in the code is \<open>>=\<close>: with equal timestamps the existing entry is replaced.
  The theorem evaluates \<open>Add\<close> there: the builder holds \<open>live_info\<close>, the info added
  has the same content ID and timestamp, and it is the one found afterwards.
\<close>

theorem Add_tie_replaces_existing:
  "Add live_info Map.empty ''ab'' = Some live_info \<and>
   BlockID tombstone_info = ''ab'' \<and>
   TimestampSeconds tombstone_info = TimestampSeconds live_info \<and>
   tombstone_info \<noteq> live_info \<and>
   Add tombstone_info (Add live_info Map.empty) ''ab'' = Some tombstone_info"
  by (simp add: Add_def tombstone_info_def live_info_def)

section \<open>Inline payloads and the empty index\<close>

text \<open>
  C4. A builder holding an info with a non-empty inline payload. The claim: \<open>Build\<close>
  returns an error value and the process does not crash. The code panics instead, in
  \<open>prepareExtraData\<close>, before a byte is written (the counterexample evaluates it on a
  builder of one such info). Amended: for every builder that holds an info with a
  non-empty payload, \<open>Build\<close> panics with the message ``storing payloads in indexes is
  not supported''; it returns no error value and writes no index.
\<close>

theorem Build_inline_payload_panics:
  assumes "finite (dom b)" and "b k = Some i" and "Payload i \<noteq> []"
  shows "Build cid b = Panic ''storing payloads in indexes is not supported''"
proof -
  have "i \<in> set (sortedBlocks b)"
    using assms by (auto simp: set_sortedBlocks ran_def)
  then have "\<exists>it \<in> set (sortedBlocks b). Payload it \<noteq> []"
    using assms(3) by blast
  then show ?thesis
    by (simp add: Build_def prepareExtraData_def prepareExtraData_loop_panics Let_def)
qed

theorem Build_inline_payload_panics_witness:
  "finite (dom (Add payload_info Map.empty)) \<and>
   Add payload_info Map.empty ''ab'' = Some payload_info \<and> Payload payload_info \<noteq> [] \<and>
   Build bytes_of (Add payload_info Map.empty)
     = Panic ''storing payloads in indexes is not supported''"
  using Build_inline_payload_panics [of "Add payload_info Map.empty" "''ab''" payload_info bytes_of]
  by (simp add: Add_def payload_info_def)

theorem Build_inline_payload_counterexample:
  "crashes (Build bytes_of (Add payload_info Map.empty)) \<and>
   \<not> returns_error (Build bytes_of (Add payload_info Map.empty))"
  by (simp add: Build_def sortedBlocks_def prepareExtraData_def Add_def payload_info_def
      crashes_def returns_error_def)

text \<open>
  C10. \<open>Build\<close> on the empty builder returns normally and writes exactly the eight header
  bytes: version 1, key length 255 (the initial \<open>keyLength = -1\<close>, which no entry has
  overwritten, converted to a byte), entry length 20 and entry count 0, both big-endian;
  no entry and no extra data follow. This holds for every \<open>contentIDToBytes\<close>.
\<close>

theorem Build_empty:
  "Build cid Map.empty = Done [1, 255, 0, 20, 0, 0, 0, 0]"
  by (simp add: Build_def sortedBlocks_def prepareExtraData_def PutUint16_def PutUint32_def)

section \<open>The layout of a non-empty index\<close>




section \<open>Order of the entries and the extra data\<close>



section \<open>Adding an index blob to the disk cache\<close>

lemmas cache_defs = addBlockToCache_def hasIndexBlockID_def writeTempFileAtomic_def
  write_and_close_def message_def


text \<open>
  The remaining answers, for completeness: an error of a presence check that is not
  not-exist is returned as it is, and so are the errors of creating, writing and closing
  the temp file; when creating the temp file answers not-exist, the directory is created
  and the temp file is created again.
\<close>

lemma addBlockToCache_check_fails:
  "exec (addBlockToCache d i data) (Failure e # rest)
     = ([Stat (indexBlockPath d i)], Some (Some (OsError e)))"
  "exec (addBlockToCache d i data)
       (NotExist e # Success tmp # Success x1 # Success x2 # Failure r # Failure e' # rest)
     = ([Stat (indexBlockPath d i), TempFile d ''tmp'', Write tmp data, Close tmp,
         Rename tmp (indexBlockPath d i), Stat (indexBlockPath d i)],
        Some (Some (OsError e')))"
  by (simp_all add: cache_defs)

lemma addBlockToCache_temp_file_fails:
  "exec (addBlockToCache d i data) (NotExist e # Failure e1 # rest)
     = ([Stat (indexBlockPath d i), TempFile d ''tmp''], Some (Some (CantCreateTmpFile e1)))"
  "exec (addBlockToCache d i data) (NotExist e # NotExist e1 # a # Failure e2 # rest)
     = ([Stat (indexBlockPath d i), TempFile d ''tmp'', MkdirAll d, TempFile d ''tmp''],
        Some (Some (CantCreateTmpFile e2)))"
  "exec (addBlockToCache d i data) (NotExist e # Success tmp # Failure e1 # rest)
     = ([Stat (indexBlockPath d i), TempFile d ''tmp'', Write tmp data],
        Some (Some (CantWriteTempFile e1)))"
  "exec (addBlockToCache d i data) (NotExist e # Success tmp # Success x1 # Failure e1 # rest)
     = ([Stat (indexBlockPath d i), TempFile d ''tmp'', Write tmp data, Close tmp],
        Some (Some CantCloseTmpFile))"
  "exec (addBlockToCache d i data)
       (NotExist e # NotExist e1 # a # Success tmp # Success x1 # Success x2 # Success x3 # rest)
     = ([Stat (indexBlockPath d i), TempFile d ''tmp'', MkdirAll d, TempFile d ''tmp'',
         Write tmp data, Close tmp, Rename tmp (indexBlockPath d i)], Some None)"
  by (simp_all add: cache_defs)

text \<open>
  C9. For every wrapped store, context and arguments, every world and every state of the
  caller: each of \<open>GetBlock\<close>, \<open>PutBlock\<close>, \<open>DeleteBlock\<close> and \<open>Close\<close> of the wrapper
  calls the same operation of the wrapped store with the same arguments, and returns its
  results and leaves its world unchanged; \<open>ConnectionInfo\<close> is the wrapped store's. For
  \<open>ListBlocks\<close>, the results and the world are those of the wrapped store's listing run with
  the caller's own callback, the callback is called with the same metadata records in the
  same order, and its return values go back to the store. The only trace of the wrapper is
  one call of the \<open>printf\<close> sink on the caller's state.
\<close>

theorem logging_wrapper_transparent:
  "store_view (logged_GetBlock s ctx i offset len (w, u))
     = GetBlock (base s) ctx i offset len w \<and>
   store_view (logged_PutBlock s ctx i data (w, u)) = PutBlock (base s) ctx i data w \<and>
   store_view (logged_DeleteBlock s ctx i (w, u)) = DeleteBlock (base s) ctx i w \<and>
   store_view (logged_Close s ctx (w, u)) = CloseStorage (base s) ctx w \<and>
   logged_ConnectionInfo s w = ConnectionInfo (base s) w \<and>
   store_view (logged_ListBlocks s ctx pfx cb (w, u))
     = store_view (run_listing (ListBlocks (base s) ctx pfx w) cb u) \<and>
   callback_args (ListBlocks (base s) ctx pfx w) (counting cb) (u, 0)
     = callback_args (ListBlocks (base s) ctx pfx w) cb u \<and>
   caller_state (logged_ListBlocks s ctx pfx cb (w, u))
     = printf s (prefix s @ ''ListBlocks(%q)=%v returned %v items and took %v'')
         [ArgString pfx,
          ArgError (fst (run_listing (ListBlocks (base s) ctx pfx w) cb u)),
          ArgInt (int (length (callback_args (ListBlocks (base s) ctx pfx w) cb u))),
          ArgDuration (now s (fst (snd (run_listing (ListBlocks (base s) ctx pfx w) cb u)))
                       - now s w)]
         (caller_state (run_listing (ListBlocks (base s) ctx pfx w) cb u))"
proof -
  have get: "store_view (logged_GetBlock s ctx i offset len (w, u))
      = GetBlock (base s) ctx i offset len w"
    by (simp add: logged_GetBlock_def store_view_def Let_def split: prod.splits)
  have put: "store_view (logged_PutBlock s ctx i data (w, u)) = PutBlock (base s) ctx i data w"
    by (simp add: logged_PutBlock_def store_view_def Let_def split: prod.splits)
  have del: "store_view (logged_DeleteBlock s ctx i (w, u)) = DeleteBlock (base s) ctx i w"
    by (simp add: logged_DeleteBlock_def store_view_def Let_def split: prod.splits)
  have cls: "store_view (logged_Close s ctx (w, u)) = CloseStorage (base s) ctx w"
    by (simp add: logged_Close_def store_view_def Let_def split: prod.splits)
  have ci: "logged_ConnectionInfo s w = ConnectionInfo (base s) w"
    by (simp add: logged_ConnectionInfo_def)
  obtain err w' u' where run: "run_listing (ListBlocks (base s) ctx pfx w) cb u = (err, w', u')"
    by (cases "run_listing (ListBlocks (base s) ctx pfx w) cb u")
  have cnt: "run_listing (ListBlocks (base s) ctx pfx w) (counting cb) (u, 0)
      = (err, w', (u', length (callback_args (ListBlocks (base s) ctx pfx w) cb u)))"
    by (simp add: run_listing_counting run)
  have lst: "store_view (logged_ListBlocks s ctx pfx cb (w, u))
      = store_view (run_listing (ListBlocks (base s) ctx pfx w) cb u)"
    by (simp add: logged_ListBlocks_def store_view_def Let_def cnt run)
  have args: "callback_args (ListBlocks (base s) ctx pfx w) (counting cb) (u, 0)
      = callback_args (ListBlocks (base s) ctx pfx w) cb u"
    by (rule callback_args_counting)
  have log: "caller_state (logged_ListBlocks s ctx pfx cb (w, u))
     = printf s (prefix s @ ''ListBlocks(%q)=%v returned %v items and took %v'')
         [ArgString pfx,
          ArgError (fst (run_listing (ListBlocks (base s) ctx pfx w) cb u)),
          ArgInt (int (length (callback_args (ListBlocks (base s) ctx pfx w) cb u))),
          ArgDuration (now s (fst (snd (run_listing (ListBlocks (base s) ctx pfx w) cb u)))
                       - now s w)]
         (caller_state (run_listing (ListBlocks (base s) ctx pfx w) cb u))"
    by (simp add: logged_ListBlocks_def caller_state_def Let_def cnt run)
  show ?thesis
    using get put del cls ci lst args log by (intro conjI)
qed

end
